theory Spec2Isabelle
  imports Complex_Main "HOL-Library.Sublist"
begin

section \<open>JavaScript numbers\<close>

text \<open>
  The program computes with JavaScript numbers. Every finite double is a rational number,
  so a finite value is modelled by a \<^typ>\<open>rat\<close> and arithmetic on finite values is exact
  (rounding error and overflow of doubles are not modelled). The three special values that
  the program can produce are kept: \<open>Math.max()\<close> of no arguments is \<open>-Infinity\<close>,
  \<open>Math.min()\<close> of no arguments is \<open>Infinity\<close>, and \<open>0 / 0\<close> is \<open>NaN\<close>.
  There is no negative zero: a zero divisor is taken to be \<open>+0\<close>, which is what
  \<open>x - x\<close> evaluates to.
\<close>

datatype number = Fin rat | PInf | NInf | NaN

fun num_sub :: "number \<Rightarrow> number \<Rightarrow> number" where
  "num_sub NaN _ = NaN"
| "num_sub _ NaN = NaN"
| "num_sub (Fin a) (Fin b) = Fin (a - b)"
| "num_sub (Fin a) PInf = NInf"
| "num_sub (Fin a) NInf = PInf"
| "num_sub PInf PInf = NaN"
| "num_sub PInf _ = PInf"
| "num_sub NInf NInf = NaN"
| "num_sub NInf _ = NInf"

fun num_mul :: "number \<Rightarrow> number \<Rightarrow> number" where
  "num_mul NaN _ = NaN"
| "num_mul _ NaN = NaN"
| "num_mul (Fin a) (Fin b) = Fin (a * b)"
| "num_mul (Fin a) PInf = (if a = 0 then NaN else if 0 < a then PInf else NInf)"
| "num_mul (Fin a) NInf = (if a = 0 then NaN else if 0 < a then NInf else PInf)"
| "num_mul PInf (Fin b) = (if b = 0 then NaN else if 0 < b then PInf else NInf)"
| "num_mul NInf (Fin b) = (if b = 0 then NaN else if 0 < b then NInf else PInf)"
| "num_mul PInf PInf = PInf"
| "num_mul PInf NInf = NInf"
| "num_mul NInf PInf = NInf"
| "num_mul NInf NInf = PInf"

fun num_div :: "number \<Rightarrow> number \<Rightarrow> number" where
  "num_div NaN _ = NaN"
| "num_div _ NaN = NaN"
| "num_div (Fin a) (Fin b) =
     (if b = 0 then (if a = 0 then NaN else if 0 < a then PInf else NInf)
      else Fin (a / b))"
| "num_div (Fin a) _ = Fin 0"
| "num_div PInf (Fin b) = (if b < 0 then NInf else PInf)"
| "num_div NInf (Fin b) = (if b < 0 then PInf else NInf)"
| "num_div _ _ = NaN"

text \<open>\<open>Math.round\<close>: the nearest integer, a tie going up (towards \<open>+Infinity\<close>).\<close>

fun Math_round :: "number \<Rightarrow> number" where
  "Math_round (Fin q) = Fin (of_int \<lfloor>q + 1 / 2\<rfloor>)"
| "Math_round x = x"

text \<open>\<open>a >= b\<close>: every comparison with \<open>NaN\<close> is false.\<close>

fun num_ge :: "number \<Rightarrow> number \<Rightarrow> bool" where
  "num_ge NaN _ = False"
| "num_ge _ NaN = False"
| "num_ge (Fin a) (Fin b) = (b \<le> a)"
| "num_ge PInf _ = True"
| "num_ge _ NInf = True"
| "num_ge _ _ = False"

text \<open>\<open>a === b\<close> on numbers: \<open>NaN\<close> equals nothing, itself included.\<close>

fun strict_eq :: "number \<Rightarrow> number \<Rightarrow> bool" where
  "strict_eq NaN _ = False"
| "strict_eq _ NaN = False"
| "strict_eq a b = (a = b)"

definition max2 :: "number \<Rightarrow> number \<Rightarrow> number" where
  "max2 a b = (if a = NaN \<or> b = NaN then NaN else if num_ge a b then a else b)"

definition min2 :: "number \<Rightarrow> number \<Rightarrow> number" where
  "min2 a b = (if a = NaN \<or> b = NaN then NaN else if num_ge b a then a else b)"

fun max_from :: "number \<Rightarrow> number list \<Rightarrow> number" where
  "max_from acc [] = acc"
| "max_from acc (x # xs) = max_from (max2 acc x) xs"

fun min_from :: "number \<Rightarrow> number list \<Rightarrow> number" where
  "min_from acc [] = acc"
| "min_from acc (x # xs) = min_from (min2 acc x) xs"

text \<open>\<open>Math.max(...xs)\<close> and \<open>Math.min(...xs)\<close>, which start from \<open>-Infinity\<close> and \<open>Infinity\<close>.\<close>

definition Math_max :: "number list \<Rightarrow> number" where
  "Math_max xs = max_from NInf xs"

definition Math_min :: "number list \<Rightarrow> number" where
  "Math_min xs = min_from PInf xs"

section \<open>JavaScript strings\<close>

definition digitChar :: "nat \<Rightarrow> char" where
  "digitChar d = ''0123456789'' ! d"

function showNat :: "nat \<Rightarrow> string" where
  "showNat n = (if n < 10 then [digitChar n] else showNat (n div 10) @ [digitChar (n mod 10)])"
  by pat_completeness auto
termination
  by (relation "measure (\<lambda>n. n)") auto

text \<open>
  The text a template literal inserts for a number. The program only converts results of
  \<open>Math.round\<close> and loop counters, which are integers or special values; JavaScript prints an
  integer of magnitude below \<open>10^21\<close> in plain decimal, as here (the exponent notation of
  larger values is not modelled).
\<close>

fun numberToString :: "number \<Rightarrow> string" where
  "numberToString (Fin q) =
     (let i = \<lfloor>q\<rfloor> in if i < 0 then ''-'' @ showNat (nat (- i)) else showNat (nat i))"
| "numberToString PInf = ''Infinity''"
| "numberToString NInf = ''-Infinity''"
| "numberToString NaN = ''NaN''"

text \<open>\<open>s.slice(-n)\<close>: the last \<open>n\<close> characters, the whole string when it is shorter.\<close>

definition slice_last :: "nat \<Rightarrow> string \<Rightarrow> string" where
  "slice_last n s = drop (length s - n) s"

text \<open>\<open>xs.join(sep)\<close>\<close>

fun join :: "string \<Rightarrow> string list \<Rightarrow> string" where
  "join sep [] = []"
| "join sep [x] = x"
| "join sep (x # y # ys) = x @ sep @ join sep (y # ys)"

text \<open>\<open>s.repeat(n)\<close>\<close>

definition repeat :: "string \<Rightarrow> nat \<Rightarrow> string" where
  "repeat s n = concat (replicate n s)"

section \<open>Data model\<close>

text \<open>
  The records are polymorphic in the type of numbers and of strings: the renderers work on
  typed forecasts (\<^typ>\<open>rat\<close> and \<^typ>\<open>string\<close>), while the normalizer's \<open>as number\<close> and
  \<open>as string\<close> casts are erased at run time, so its result carries untyped values.
\<close>

record 'n HourlyForecast =
  temperature :: 'n
  feels_like :: 'n
  precipitation_probability :: 'n

record ('n, 's) Forecast =
  alerts :: "'s list"
  temperature :: 'n
  feels_like :: 'n
  current_summary :: 's
  future_summary :: 's
  hourly :: "'n HourlyForecast list"

type_synonym forecast = "(rat, string) Forecast"

datatype Format = html | tty

section \<open>Format strategy\<close>

definition ESC :: char where
  "ESC = CHR 0x1B"

definition bold :: "string \<Rightarrow> Format \<Rightarrow> string" where
  "bold s format =
     (if format = html then ''<strong>'' @ s @ ''</strong>''
      else [ESC] @ ''[1m'' @ s @ [ESC] @ ''[0m'')"

definition cyan :: "string \<Rightarrow> Format \<Rightarrow> string" where
  "cyan s format =
     (if format = html then ''<span style=\"color: teal\">'' @ s @ ''</span>''
      else [ESC] @ ''[36m'' @ s @ [ESC] @ ''[0m'')"

section \<open>Renderers\<close>

definition PREFIX :: string where
  "PREFIX = repeat '' '' 9"

definition PREFIX_LEN :: nat where
  "PREFIX_LEN = length PREFIX"

subsection \<open>Precipitation graph\<close>

text \<open>
  \<open>renderPrecipitationGraph\<close>, in the order of the source: its constant \<open>graphHeight\<close>
  (\<open>precipGraphHeight\<close> here, the temperature graph has its own), the inner function
  \<open>scalePrecipitation\<close>, the label and the cells that the loop body builds, the loop, and
  the function itself.
\<close>

definition precipGraphHeight :: nat where
  "precipGraphHeight = 5"

definition scalePrecipitation :: "number \<Rightarrow> number" where
  "scalePrecipitation precipitationProbability =
     Math_round (num_mul precipitationProbability (Fin (of_nat precipGraphHeight)))"

definition precipLabel :: "number \<Rightarrow> string" where
  "precipLabel maxPrecipProbability =
     slice_last PREFIX_LEN
       (''    R '' @ numberToString (Math_round (num_mul maxPrecipProbability (Fin 100))) @ ''%  '')"

definition precipCells :: "number list \<Rightarrow> nat \<Rightarrow> string" where
  "precipCells scaledPrecips i =
     concat (map (\<lambda>p. if num_ge p (Fin (of_nat i)) then ''**'' else ''  '') scaledPrecips)"

text \<open>One pass of the loop body: the row pushed for cursor \<open>i\<close>.\<close>

definition precipRow :: "Format \<Rightarrow> number \<Rightarrow> number list \<Rightarrow> nat \<Rightarrow> string" where
  "precipRow format maxPrecipProbability scaledPrecips i =
     (let prefix =
        (if strict_eq (scalePrecipitation maxPrecipProbability) (Fin (of_nat i))
         then cyan (bold (precipLabel maxPrecipProbability) format) format
         else PREFIX)
      in prefix @ cyan (precipCells scaledPrecips i) format)"

function precipLoop :: "Format \<Rightarrow> number \<Rightarrow> number list \<Rightarrow> nat \<Rightarrow> string list \<Rightarrow> string list" where
  "precipLoop format maxP scaledPrecips i result =
     (if i < precipGraphHeight + 1
      then precipLoop format maxP scaledPrecips (i + 1)
             (result @ [precipRow format maxP scaledPrecips i])
      else result)"
  by pat_completeness auto
termination
  by (relation "measure (\<lambda>(format, maxP, scaledPrecips, i, result). precipGraphHeight + 1 - i)") auto

definition renderPrecipitationGraph :: "forecast \<Rightarrow> Format \<Rightarrow> string" where
  "renderPrecipitationGraph forecast format =
     (let precipProbabilities =
            map (\<lambda>h. Fin (HourlyForecast.precipitation_probability h)) (hourly forecast);
          scaledPrecips = map scalePrecipitation precipProbabilities;
          maxPrecipProbability = Math_max precipProbabilities
      in if strict_eq maxPrecipProbability (Fin 0) then []
         else join ''\<newline>'' (precipLoop format maxPrecipProbability scaledPrecips 1 []))"

subsection \<open>Temperature graph\<close>

text \<open>
  \<open>renderTemperatureGraph\<close>. The inner function \<open>scaleTemperature\<close> reads \<open>minTemperature\<close>
  and \<open>maxTemperature\<close> from the enclosing scope; here they are parameters. There is no
  test for \<open>maxTemperature = minTemperature\<close> in the source, and none here.
\<close>

definition tempGraphHeight :: nat where
  "tempGraphHeight = 7"

definition scaleTemperature :: "number \<Rightarrow> number \<Rightarrow> number \<Rightarrow> number" where
  "scaleTemperature minTemperature maxTemperature temp =
     Math_round
       (num_mul
          (num_div (num_sub temp minTemperature) (num_sub maxTemperature minTemperature))
          (Fin (of_nat tempGraphHeight)))"

definition temps :: "forecast \<Rightarrow> number list" where
  "temps forecast = map (\<lambda>h. Fin (HourlyForecast.feels_like h)) (hourly forecast)"

definition scaledTemps :: "forecast \<Rightarrow> number list" where
  "scaledTemps forecast =
     map (scaleTemperature (Math_min (temps forecast)) (Math_max (temps forecast)))
       (temps forecast)"

definition tempLabel :: "string \<Rightarrow> number \<Rightarrow> string" where
  "tempLabel letter t =
     slice_last PREFIX_LEN (''    '' @ letter @ '' '' @ numberToString (Math_round t) @ ''F  '')"

definition tempCells :: "number list \<Rightarrow> nat \<Rightarrow> string" where
  "tempCells scaled i =
     concat (map (\<lambda>t. if num_ge t (Fin (of_nat i)) then ''**'' else ''  '') scaled)"

definition tempRow :: "Format \<Rightarrow> number \<Rightarrow> number list \<Rightarrow> nat \<Rightarrow> string" where
  "tempRow format maxTemperature scaled i =
     (let prefix =
        (if i = tempGraphHeight then bold (tempLabel ''H'' maxTemperature) format else PREFIX)
      in prefix @ tempCells scaled i)"

text \<open>The loop \<open>for (let i = graphHeight; i; i -= 1)\<close>, by recursion on the cursor.\<close>

fun tempLoop :: "Format \<Rightarrow> number \<Rightarrow> number list \<Rightarrow> nat \<Rightarrow> string list \<Rightarrow> string list" where
  "tempLoop format maxT scaled 0 result = result"
| "tempLoop format maxT scaled (Suc k) result =
     tempLoop format maxT scaled k (result @ [tempRow format maxT scaled (Suc k)])"

definition baselineRow :: "Format \<Rightarrow> number \<Rightarrow> number list \<Rightarrow> string" where
  "baselineRow format minTemperature scaled =
     bold (tempLabel ''L'' minTemperature) format @ repeat ''**'' (length scaled)"

definition renderTemperatureGraph :: "forecast \<Rightarrow> Format \<Rightarrow> string" where
  "renderTemperatureGraph forecast format =
     (let maxTemperature = Math_max (temps forecast);
          minTemperature = Math_min (temps forecast);
          scaled = scaledTemps forecast;
          result = tempLoop format maxTemperature scaled tempGraphHeight []
      in join ''\<newline>'' (result @ [baselineRow format minTemperature scaled]))"

subsection \<open>Time axis\<close>

text \<open>
  The loop of \<open>renderTimeOffsets\<close> over a series of \<open>n\<close> entries. The label branch moves the
  cursor itself (\<open>i += 1\<close>) before the loop's own increment, so it continues at \<open>i + 2\<close>;
  \<open>break\<close> returns the accumulated line. The test \<open>i === length - 1\<close> is made inside the
  loop, where \<open>i < n\<close>, so \<open>n - 1\<close> is the same on natural numbers.
\<close>

function timeLoop :: "Format \<Rightarrow> nat \<Rightarrow> nat \<Rightarrow> string \<Rightarrow> string" where
  "timeLoop format n i result =
     (if i < n then
        (if i = n - 1 then result @ bold (showNat (n - 1) @ ''h'') format
         else if i mod 6 = 0 then
           timeLoop format n (i + 2) (result @ bold (take 4 (showNat i @ ''h   '')) format)
         else timeLoop format n (i + 1) (result @ ''  ''))
      else result)"
  by pat_completeness auto
termination
  by (relation "measure (\<lambda>(format, n, i, result). n - i)")
     (simp, (simp only: in_measure prod.case, linarith?)+)

definition renderTimeOffsets :: "forecast \<Rightarrow> Format \<Rightarrow> string" where
  "renderTimeOffsets forecast format = timeLoop format (length (hourly forecast)) 0 PREFIX"

subsection \<open>Report composer\<close>




section \<open>Forecast normalizer\<close>

text \<open>
  The upstream payload is untyped (\<open>data: any\<close>): a JSON value, or \<open>undefined\<close>. An object
  is the list of its members; a member is looked up by its key.
\<close>

datatype jsval =
    Undefined
  | Null
  | JBool bool
  | JNum rat
  | JStr string
  | JArr "jsval list"
  | JObj "(string \<times> jsval) list"

text \<open>
  Reading a property of \<open>undefined\<close> or \<open>null\<close> throws a \<open>TypeError\<close>, and so does calling
  a method that the value does not have. This is the failure that the specification calls a
  NormalizationError; the program defines no error class of its own.
\<close>

datatype error = TypeError | FetchError string

text \<open>
  \<open>v.k\<close> for the property names the normalizer reads: a missing member of an object, and any
  of these names on a primitive or an array, is \<open>undefined\<close>.
\<close>

definition getProp :: "jsval \<Rightarrow> string \<Rightarrow> error + jsval" where
  "getProp v k =
     (case v of
        Undefined \<Rightarrow> Inl TypeError
      | Null \<Rightarrow> Inl TypeError
      | JObj members \<Rightarrow> Inr (case map_of members k of Some x \<Rightarrow> x | None \<Rightarrow> Undefined)
      | _ \<Rightarrow> Inr Undefined)"

fun truthy :: "jsval \<Rightarrow> bool" where
  "truthy Undefined = False"
| "truthy Null = False"
| "truthy (JBool b) = b"
| "truthy (JNum q) = (q \<noteq> 0)"
| "truthy (JStr s) = (s \<noteq> [])"
| "truthy (JArr xs) = True"
| "truthy (JObj members) = True"

text \<open>Sequencing of computations that may throw: the first error ends the evaluation.\<close>

definition andThen :: "error + 'a \<Rightarrow> ('a \<Rightarrow> error + 'b) \<Rightarrow> error + 'b" where
  "andThen r k = (case r of Inl e \<Rightarrow> Inl e | Inr v \<Rightarrow> k v)"

text \<open>\<open>xs.map(f)\<close> with a callback that may throw.\<close>

fun mapE :: "('a \<Rightarrow> error + 'b) \<Rightarrow> 'a list \<Rightarrow> error + 'b list" where
  "mapE g [] = Inr []"
| "mapE g (x # xs) = andThen (g x) (\<lambda>y. andThen (mapE g xs) (\<lambda>ys. Inr (y # ys)))"

text \<open>\<open>v.map(f)\<close> on an untyped value: only an array has the method.\<close>

definition mapArray :: "(jsval \<Rightarrow> error + 'b) \<Rightarrow> jsval \<Rightarrow> error + 'b list" where
  "mapArray g v = (case v of JArr xs \<Rightarrow> mapE g xs | _ \<Rightarrow> Inl TypeError)"

text \<open>
  \<open>v.slice(0, 25).map(f)\<close> on an untyped value: on an array, the first 25 entries; a string
  has \<open>slice\<close> but its result has no \<open>map\<close>, and no other value has \<open>slice\<close>.
\<close>

definition sliceMap :: "(jsval \<Rightarrow> error + 'b) \<Rightarrow> jsval \<Rightarrow> error + 'b list" where
  "sliceMap g v = (case v of JArr xs \<Rightarrow> mapE g (take 25 xs) | _ \<Rightarrow> Inl TypeError)"

definition transformHour :: "jsval \<Rightarrow> error + jsval HourlyForecast" where
  "transformHour hour =
     andThen (getProp hour ''temperature'') (\<lambda>t.
     andThen (getProp hour ''apparentTemperature'') (\<lambda>a.
     andThen (getProp hour ''precipProbability'') (\<lambda>p.
       Inr \<lparr> HourlyForecast.temperature = t,
             HourlyForecast.feels_like = a,
             HourlyForecast.precipitation_probability = p \<rparr>)))"

definition transformDarkSkyForecast :: "jsval \<Rightarrow> error + (jsval, jsval) Forecast" where
  "transformDarkSkyForecast data =
     andThen (getProp data ''alerts'') (\<lambda>al.
     andThen (if truthy al then mapArray (\<lambda>a. getProp a ''title'') al else Inr []) (\<lambda>titles.
     andThen (getProp data ''currently'') (\<lambda>c1.
     andThen (getProp c1 ''temperature'') (\<lambda>t.
     andThen (getProp data ''currently'') (\<lambda>c2.
     andThen (getProp c2 ''apparentTemperature'') (\<lambda>a.
     andThen (getProp data ''currently'') (\<lambda>c3.
     andThen (getProp c3 ''summary'') (\<lambda>cs.
     andThen (getProp data ''hourly'') (\<lambda>h1.
     andThen (getProp h1 ''summary'') (\<lambda>fs.
     andThen (getProp data ''hourly'') (\<lambda>h2.
     andThen (getProp h2 ''data'') (\<lambda>series.
     andThen (sliceMap transformHour series) (\<lambda>hs.
       Inr \<lparr> alerts = titles,
             temperature = t,
             feels_like = a,
             current_summary = cs,
             future_summary = fs,
             hourly = hs \<rparr>)))))))))))))"

text \<open>
  \<open>getForecastForLatLng\<close> applies the normalizer to what \<open>fetch\<close> resolved to; the outcome of
  the request is a parameter here. There is no handler around the call, so an error of
  either step is the caller's result.
\<close>

definition getForecastForLatLng :: "error + jsval \<Rightarrow> error + (jsval, jsval) Forecast" where
  "getForecastForLatLng fetched = andThen fetched transformDarkSkyForecast"

text \<open>A value is absent when it is \<open>undefined\<close> (a missing member) or \<open>null\<close>.\<close>

definition absent :: "jsval \<Rightarrow> bool" where
  "absent v = (v = Undefined \<or> v = Null)"

text \<open>Member lookup without the failure, for stating what a payload contains.\<close>

definition memberOf :: "jsval \<Rightarrow> string \<Rightarrow> jsval" where
  "memberOf v k = (case getProp v k of Inl e \<Rightarrow> Undefined | Inr x \<Rightarrow> x)"

text \<open>What the specification says the normalizer returns, for stating the result.\<close>

definition isArray :: "jsval \<Rightarrow> bool" where
  "isArray v = (case v of JArr xs \<Rightarrow> True | _ \<Rightarrow> False)"

definition elements :: "jsval \<Rightarrow> jsval list" where
  "elements v = (case v of JArr xs \<Rightarrow> xs | _ \<Rightarrow> [])"

definition alertTitles :: "jsval \<Rightarrow> jsval list" where
  "alertTitles al = (if truthy al then map (\<lambda>a. memberOf a ''title'') (elements al) else [])"

definition hourOf :: "jsval \<Rightarrow> jsval HourlyForecast" where
  "hourOf h =
     \<lparr> HourlyForecast.temperature = memberOf h ''temperature'',
       HourlyForecast.feels_like = memberOf h ''apparentTemperature'',
       HourlyForecast.precipitation_probability = memberOf h ''precipProbability'' \<rparr>"

text \<open>
  The mapping rules of the specification: alerts from the alert titles, the current fields
  from the current-conditions block, the future summary from the hourly block, and the
  hourly entries from the first 25 entries of the hourly series.
\<close>

definition normalizedForecast :: "jsval \<Rightarrow> (jsval, jsval) Forecast" where
  "normalizedForecast data =
     \<lparr> alerts = alertTitles (memberOf data ''alerts''),
       temperature = memberOf (memberOf data ''currently'') ''temperature'',
       feels_like = memberOf (memberOf data ''currently'') ''apparentTemperature'',
       current_summary = memberOf (memberOf data ''currently'') ''summary'',
       future_summary = memberOf (memberOf data ''hourly'') ''summary'',
       hourly = map hourOf (take 25 (elements (memberOf (memberOf data ''hourly'') ''data''))) \<rparr>"

text \<open>An error-free result or a \<open>TypeError\<close>.\<close>

definition onlyTypeError :: "error + 'a \<Rightarrow> bool" where
  "onlyTypeError r = (case r of Inl e \<Rightarrow> e = TypeError | Inr v \<Rightarrow> True)"

text \<open>Payloads used as concrete inputs, cut from the recorded forecast of the program.\<close>

definition payloadHour :: jsval where
  "payloadHour =
     JObj [(''time'', JNum 1541797200), (''summary'', JStr ''Overcast''),
           (''precipProbability'', JNum (3 / 100)), (''temperature'', JNum (4737 / 100)),
           (''apparentTemperature'', JNum (4428 / 100))]"

definition payloadCurrently :: jsval where
  "payloadCurrently =
     JObj [(''time'', JNum 1541799500), (''summary'', JStr ''Overcast''),
           (''temperature'', JNum (4737 / 100)), (''apparentTemperature'', JNum (4428 / 100))]"

definition payload :: jsval where
  "payload =
     JObj [(''latitude'', JNum (423046576 / 10000000)),
           (''currently'', payloadCurrently),
           (''hourly'', JObj [(''summary'', JStr ''Rain tomorrow morning.''),
                              (''data'', JArr (replicate 26 payloadHour))]),
           (''alerts'', JArr [JObj [(''title'', JStr ''Flood Watch'')],
                              JObj [(''title'', JStr ''Wind Advisory'')]])]"

definition payloadNoCurrently :: jsval where
  "payloadNoCurrently =
     JObj [(''hourly'', JObj [(''summary'', JStr ''Rain tomorrow morning.''),
                              (''data'', JArr [payloadHour])])]"

definition payloadNullHour :: jsval where
  "payloadNullHour =
     JObj [(''currently'', payloadCurrently),
           (''hourly'', JObj [(''summary'', JStr ''Rain tomorrow morning.''),
                              (''data'', JArr [payloadHour, Null])])]"

definition payloadAlertObject :: jsval where
  "payloadAlertObject =
     JObj [(''currently'', payloadCurrently),
           (''hourly'', JObj [(''summary'', JStr ''Rain tomorrow morning.''),
                              (''data'', JArr [payloadHour])]),
           (''alerts'', JObj [(''title'', JStr ''Flood Watch'')])]"

section \<open>Reading the rendered text\<close>

text \<open>
  The decoration sequences of each format, and the removal of all of them from a text,
  scanning from the left. These are not part of the program: they state what the
  specification means by stripping decoration.
\<close>

definition decorations :: "Format \<Rightarrow> string list" where
  "decorations format =
     (if format = html
      then [''<strong>'', ''</strong>'', ''<span style=\"color: teal\">'', ''</span>'']
      else [[ESC] @ ''[1m'', [ESC] @ ''[36m'', [ESC] @ ''[0m''])"

definition tagStart :: "Format \<Rightarrow> char" where
  "tagStart format = (if format = html then CHR ''<'' else ESC)"

function strip :: "Format \<Rightarrow> string \<Rightarrow> string" where
  "strip format [] = []"
| "strip format (c # cs) =
     (case find (\<lambda>t. prefix t (c # cs)) (decorations format) of
        Some t \<Rightarrow> strip format (drop (length t) (c # cs))
      | None \<Rightarrow> c # strip format cs)"
  by pat_completeness auto
termination
proof (relation "measure (\<lambda>(format, s). length s)")
  show "wf (measure (\<lambda>(format, s). length s))"
    by simp
next
  fix format :: Format and c :: char and cs t :: string
  assume "find (\<lambda>t. prefix t (c # cs)) (decorations format) = Some t"
  then have "t \<in> set (decorations format)"
    by (auto simp: find_Some_iff)
  then have "t \<noteq> []"
    by (auto simp: decorations_def split: if_splits)
  then show "((format, drop (length t) (c # cs)), (format, c # cs))
               \<in> measure (\<lambda>(format, s). length s)"
    by (cases t) auto
next
  fix format :: Format and c :: char and cs :: string
  show "((format, cs), (format, c # cs)) \<in> measure (\<lambda>(format, s). length s)"
    by simp
qed

text \<open>The lines of a text: the pieces between line feeds.\<close>

fun splitLines :: "string \<Rightarrow> string list" where
  "splitLines [] = [[]]"
| "splitLines (c # cs) =
     (if c = CHR ''\<newline>'' then [] # splitLines cs
      else (case splitLines cs of [] \<Rightarrow> [[c]] | l # ls \<Rightarrow> (c # l) # ls))"




text \<open>
  The marker of hour column \<open>j\<close> in a rendered graph row: the two characters after the
  nine-character prefix and the \<open>j\<close> columns before it, decoration removed.
\<close>

definition cellAt :: "Format \<Rightarrow> string \<Rightarrow> nat \<Rightarrow> string" where
  "cellAt format line j = take 2 (drop (9 + 2 * j) (strip format line))"

text \<open>The characters that labels and graph cells are made of.\<close>

definition labelChars :: "char set" where
  "labelChars = set ''0123456789-InfityNa HLRF%*h''"

text \<open>
  The time axis as the specification describes it, slot by slot: a four-character label at
  every sixth column, which also covers the column after it, and two blanks elsewhere.
\<close>

definition axisSlot :: "Format \<Rightarrow> nat \<Rightarrow> string" where
  "axisSlot format i =
     (if i mod 6 = 0 then bold (take 4 (showNat i @ ''h   '')) format
      else if i mod 6 = 1 then []
      else ''  '')"

text \<open>The number of characters that the slot of column \<open>i\<close> adds to the time axis.\<close>

definition slotWidth :: "nat \<Rightarrow> nat" where
  "slotWidth i = (if i mod 6 = 0 then 4 else if i mod 6 = 1 then 0 else 2)"



text \<open>Forecasts used as concrete inputs.\<close>

definition hour :: "rat \<Rightarrow> rat \<Rightarrow> rat HourlyForecast" where
  "hour feels precip =
     \<lparr> HourlyForecast.temperature = feels,
       HourlyForecast.feels_like = feels,
       HourlyForecast.precipitation_probability = precip \<rparr>"

definition sample :: "rat HourlyForecast list \<Rightarrow> forecast" where
  "sample hs =
     \<lparr> alerts = [], temperature = 47, feels_like = 44,
       current_summary = ''Overcast'', future_summary = ''Rain'', hourly = hs \<rparr>"

section \<open>Verification\<close>

lemma max_from_Fin: "max_from (Fin a) (map Fin qs) = Fin (fold max qs a)"
  by (induction qs arbitrary: a) (auto simp: max2_def max_def)

lemma min_from_Fin: "min_from (Fin a) (map Fin qs) = Fin (fold min qs a)"
  by (induction qs arbitrary: a) (auto simp: min2_def min_def)

lemma Math_max_Fin: "qs \<noteq> [] \<Longrightarrow> Math_max (map Fin qs) = Fin (Max (set qs))"
  by (cases qs) (simp_all add: Math_max_def max2_def max_from_Fin Max.set_eq_fold [symmetric])

lemma Math_min_Fin: "qs \<noteq> [] \<Longrightarrow> Math_min (map Fin qs) = Fin (Min (set qs))"
  by (cases qs) (simp_all add: Math_min_def min2_def min_from_Fin Min.set_eq_fold [symmetric])



declare showNat.simps [simp del] timeLoop.simps [simp del] precipLoop.simps [simp del]

subsection \<open>Lines\<close>

lemma splitLines_plain:
  "CHR ''\<newline>'' \<notin> set x \<Longrightarrow> splitLines (x @ CHR ''\<newline>'' # rest) = x # splitLines rest"
  by (induction x) auto

lemma splitLines_single: "CHR ''\<newline>'' \<notin> set x \<Longrightarrow> splitLines x = [x]"
  by (induction x) auto

lemma splitLines_join:
  "rows \<noteq> [] \<Longrightarrow> \<forall>r\<in>set rows. CHR ''\<newline>'' \<notin> set r \<Longrightarrow>
     splitLines (join ''\<newline>'' rows) = rows"
  by (induction "''\<newline>''" rows rule: join.induct)
     (auto simp: splitLines_single splitLines_plain)

subsection \<open>Characters of the rendered numbers\<close>

lemma digitChar_in: "d < 10 \<Longrightarrow> digitChar d \<in> set ''0123456789''"
  unfolding digitChar_def by (rule nth_mem) simp

lemma showNat_chars: "set (showNat n) \<subseteq> set ''0123456789''"
proof (induction n rule: showNat.induct)
  case (1 n)
  show ?case
  proof (cases "n < 10")
    case True
    then show ?thesis
      using digitChar_in [of n] by (subst showNat.simps) simp
  next
    case False
    then have "set (showNat (n div 10)) \<subseteq> set ''0123456789''"
      using "1" by simp
    moreover have "digitChar (n mod 10) \<in> set ''0123456789''"
      by (rule digitChar_in) simp
    ultimately show ?thesis
      using False by (subst showNat.simps) simp
  qed
qed

lemma numberToString_chars: "set (numberToString x) \<subseteq> set ''0123456789-InfityNa''"
proof (cases x)
  case (Fin q)
  have "set (showNat k) \<subseteq> set ''0123456789-InfityNa''" for k
    using showNat_chars [of k] by (rule subset_trans) simp
  then show ?thesis
    using Fin by (simp add: Let_def)
qed simp_all

subsection \<open>The loops as lists of rows\<close>

lemma tempLoop_unroll:
  "tempLoop format m sc k acc = acc @ map (tempRow format m sc) (rev [1..<Suc k])"
  by (induction k arbitrary: acc) simp_all

lemma precipLoop_unroll:
  "i \<le> 6 \<Longrightarrow> precipLoop format m sc i acc = acc @ map (precipRow format m sc) [i..<6]"
proof (induction format m sc i acc rule: precipLoop.induct)
  case (1 format maxP scaledPrecips i result)
  show ?case
  proof (cases "i < 6")
    case True
    then show ?thesis
      using "1.IH" by (subst precipLoop.simps) (simp add: precipGraphHeight_def upt_conv_Cons)
  next
    case False
    then show ?thesis
      using "1.prems" by (subst precipLoop.simps) (simp add: precipGraphHeight_def)
  qed
qed


lemma rows_5: "[1..<6] = [1, 2, 3, 4, 5 :: nat]"
  by code_simp


lemma renderPrecipitationGraph_rows:
  "renderPrecipitationGraph f format =
     (let ps = map (\<lambda>h. Fin (HourlyForecast.precipitation_probability h)) (hourly f)
      in if strict_eq (Math_max ps) (Fin 0) then []
         else join ''\<newline>''
                (map (precipRow format (Math_max ps) (map scalePrecipitation ps)) [1, 2, 3, 4, 5]))"
proof -
  have "precipLoop format m sc 1 [] = map (precipRow format m sc) [1, 2, 3, 4, 5]" for m sc
    using precipLoop_unroll [of 1 format m sc "[]"] by (simp only: rows_5 append_Nil)
  then show ?thesis
    by (simp only: renderPrecipitationGraph_def Let_def)
qed

subsection \<open>Stripping decoration\<close>

lemma find_decorations_plain:
  "c \<noteq> tagStart format \<Longrightarrow> find (\<lambda>t. prefix t (c # cs)) (decorations format) = None"
  by (cases format) (auto simp: decorations_def tagStart_def)

lemma strip_plain: "tagStart format \<notin> set a \<Longrightarrow> strip format (a @ b) = a @ strip format b"
  by (induction a) (auto simp: find_decorations_plain)

lemma strip_plain_only: "tagStart format \<notin> set a \<Longrightarrow> strip format a = a"
  using strip_plain [of format a "[]"] by simp

lemma strip_decoration:
  "t \<in> set (decorations format) \<Longrightarrow> strip format (t @ b) = strip format b"
  by (cases format) (auto simp: decorations_def)

lemma bold_shape:
  "\<exists>t1 t2. t1 \<in> set (decorations format) \<and> t2 \<in> set (decorations format)
     \<and> (\<forall>a. bold a format = t1 @ a @ t2)"
proof (cases format)
  case html
  show ?thesis
    by (rule exI [of _ "''<strong>''"], rule exI [of _ "''</strong>''"])
       (simp add: html bold_def decorations_def)
next
  case tty
  show ?thesis
    by (rule exI [of _ "[ESC] @ ''[1m''"], rule exI [of _ "[ESC] @ ''[0m''"])
       (simp add: tty bold_def decorations_def)
qed

lemma cyan_shape:
  "\<exists>t1 t2. t1 \<in> set (decorations format) \<and> t2 \<in> set (decorations format)
     \<and> (\<forall>a. cyan a format = t1 @ a @ t2)"
proof (cases format)
  case html
  show ?thesis
    by (rule exI [of _ "''<span style=\"color: teal\">''"], rule exI [of _ "''</span>''"])
       (simp add: html cyan_def decorations_def)
next
  case tty
  show ?thesis
    by (rule exI [of _ "[ESC] @ ''[36m''"], rule exI [of _ "[ESC] @ ''[0m''"])
       (simp add: tty cyan_def decorations_def)
qed

lemma strip_bold_plain:
  assumes "tagStart format \<notin> set a"
  shows "strip format (bold a format @ b) = a @ strip format b"
proof -
  obtain t1 t2 where t: "t1 \<in> set (decorations format)" "t2 \<in> set (decorations format)"
    and b: "\<And>a. bold a format = t1 @ a @ t2"
    using bold_shape [of format] by blast
  show ?thesis
    using assms t by (simp add: b strip_decoration strip_plain)
qed

lemma strip_cyan_plain:
  assumes "tagStart format \<notin> set a"
  shows "strip format (cyan a format @ b) = a @ strip format b"
proof -
  obtain t1 t2 where t: "t1 \<in> set (decorations format)" "t2 \<in> set (decorations format)"
    and b: "\<And>a. cyan a format = t1 @ a @ t2"
    using cyan_shape [of format] by blast
  show ?thesis
    using assms t by (simp add: b strip_decoration strip_plain)
qed

lemma strip_cyan_bold_plain:
  assumes "tagStart format \<notin> set a"
  shows "strip format (cyan (bold a format) format @ b) = a @ strip format b"
proof -
  obtain t1 t2 where t: "t1 \<in> set (decorations format)" "t2 \<in> set (decorations format)"
    and b: "\<And>a. bold a format = t1 @ a @ t2"
    using bold_shape [of format] by blast
  obtain u1 u2 where u: "u1 \<in> set (decorations format)" "u2 \<in> set (decorations format)"
    and c: "\<And>a. cyan a format = u1 @ a @ u2"
    using cyan_shape [of format] by blast
  show ?thesis
    using assms t u by (simp add: b c strip_decoration strip_plain)
qed

subsection \<open>Cells and labels\<close>

lemma cell_at:
  "\<forall>x. length (g x) = 2 \<Longrightarrow> j < length xs \<Longrightarrow>
     take 2 (drop (2 * j) (concat (map g xs))) = g (xs ! j)"
proof (induction xs arbitrary: j)
  case Nil
  then show ?case by simp
next
  case (Cons x xs)
  show ?case
  proof (cases j)
    case 0
    then show ?thesis using Cons.prems by simp
  next
    case (Suc k)
    then have "take 2 (drop (2 * k) (concat (map g xs))) = g (xs ! k)"
      using Cons by simp
    then show ?thesis
      using Suc Cons.prems(1) by simp
  qed
qed

lemma length_cells:
  "\<forall>x. length (g x) = 2 \<Longrightarrow> length (concat (map g xs)) = 2 * length xs"
  by (induction xs) simp_all

lemma length_tempCells: "length (tempCells sc i) = 2 * length sc"
  unfolding tempCells_def by (rule length_cells) simp

lemma length_precipCells: "length (precipCells sc i) = 2 * length sc"
  unfolding precipCells_def by (rule length_cells) simp

lemma set_tempCells: "set (tempCells sc i) \<subseteq> {CHR ''*'', CHR '' ''}"
  by (induction sc) (auto simp: tempCells_def)

lemma set_precipCells: "set (precipCells sc i) \<subseteq> {CHR ''*'', CHR '' ''}"
  by (induction sc) (auto simp: precipCells_def)

lemma length_repeat2: "length (repeat ''**'' n) = 2 * n"
  by (induction n) (simp_all add: repeat_def)

lemma set_repeat2: "set (repeat ''**'' n) \<subseteq> {CHR ''*''}"
  by (induction n) (simp_all add: repeat_def)

lemma PREFIX_eq: "PREFIX = ''         ''"
  by (simp add: PREFIX_def repeat_def numeral_eq_Suc)

lemma PREFIX_LEN_eq: "PREFIX_LEN = 9"
  by (simp add: PREFIX_LEN_def PREFIX_eq)

lemma length_slice_last: "n \<le> length s \<Longrightarrow> length (slice_last n s) = n"
  by (simp add: slice_last_def)

lemma set_slice_last: "set (slice_last n s) \<subseteq> set s"
  unfolding slice_last_def by (rule set_drop_subset)

lemma length_tempLabel: "length letter = 1 \<Longrightarrow> length (tempLabel letter t) = 9"
  unfolding tempLabel_def PREFIX_LEN_eq by (rule length_slice_last) simp

lemma length_precipLabel: "length (precipLabel m) = 9"
  unfolding precipLabel_def PREFIX_LEN_eq by (rule length_slice_last) simp

lemma tempLabel_chars: "set letter \<subseteq> set ''HL'' \<Longrightarrow> set (tempLabel letter t) \<subseteq> labelChars"
proof -
  assume l: "set letter \<subseteq> set ''HL''"
  have n: "set (numberToString (Math_round t)) \<subseteq> labelChars"
    using numberToString_chars [of "Math_round t"]
    by (rule subset_trans) (simp add: labelChars_def)
  have "set letter \<subseteq> labelChars"
    using l by (rule subset_trans) (simp add: labelChars_def)
  then have "set (''    '' @ letter @ '' '' @ numberToString (Math_round t) @ ''F  '') \<subseteq> labelChars"
    using n by (simp add: labelChars_def)
  then show ?thesis
    unfolding tempLabel_def using set_slice_last by (rule subset_trans [rotated])
qed

lemma precipLabel_chars: "set (precipLabel m) \<subseteq> labelChars"
proof -
  have n: "set (numberToString (Math_round (num_mul m (Fin 100)))) \<subseteq> labelChars"
    using numberToString_chars [of "Math_round (num_mul m (Fin 100))"]
    by (rule subset_trans) (simp add: labelChars_def)
  then have "set (''    R '' @ numberToString (Math_round (num_mul m (Fin 100))) @ ''%  '')
               \<subseteq> labelChars"
    by (simp add: labelChars_def)
  then show ?thesis
    unfolding precipLabel_def using set_slice_last by (rule subset_trans [rotated])
qed

lemma tagStart_not_label: "tagStart format \<notin> labelChars"
  by (cases format) (simp_all add: labelChars_def tagStart_def ESC_def)

lemma newline_not_label: "CHR ''\<newline>'' \<notin> labelChars"
  by (simp add: labelChars_def)

lemma labelChars_plain: "set s \<subseteq> labelChars \<Longrightarrow> tagStart format \<notin> set s"
  using tagStart_not_label [of format] by blast

lemma labelChars_no_newline: "set s \<subseteq> labelChars \<Longrightarrow> CHR ''\<newline>'' \<notin> set s"
  using newline_not_label by blast

lemma cells_in_labelChars:
  assumes "set s \<subseteq> {CHR ''*'', CHR '' ''}"
  shows "set s \<subseteq> labelChars"
proof -
  have "{CHR ''*'', CHR '' ''} \<subseteq> labelChars"
    by (simp add: labelChars_def)
  with assms show ?thesis
    by (rule subset_trans)
qed

subsection \<open>Rows of the temperature graph\<close>

lemma bold_no_newline: "CHR ''\<newline>'' \<notin> set a \<Longrightarrow> CHR ''\<newline>'' \<notin> set (bold a format)"
  by (simp add: bold_def ESC_def)

lemma cyan_no_newline: "CHR ''\<newline>'' \<notin> set a \<Longrightarrow> CHR ''\<newline>'' \<notin> set (cyan a format)"
  by (simp add: cyan_def ESC_def)

lemma PREFIX_chars: "set PREFIX \<subseteq> labelChars"
  by (simp add: PREFIX_eq labelChars_def)

lemma length_PREFIX: "length PREFIX = 9"
  by (simp add: PREFIX_eq)

lemma tempCells_chars: "set (tempCells sc i) \<subseteq> labelChars"
  using set_tempCells by (rule cells_in_labelChars)

lemma precipCells_chars: "set (precipCells sc i) \<subseteq> labelChars"
  using set_precipCells by (rule cells_in_labelChars)

lemma repeat2_chars: "set (repeat ''**'' n) \<subseteq> labelChars"
proof -
  have "{CHR ''*''} \<subseteq> labelChars"
    by (simp add: labelChars_def)
  with set_repeat2 show ?thesis
    by (rule subset_trans)
qed

lemma tempRow_no_newline: "CHR ''\<newline>'' \<notin> set (tempRow format m sc i)"
  using labelChars_no_newline [OF tempCells_chars, of sc i]
    labelChars_no_newline [OF PREFIX_chars]
    bold_no_newline [OF labelChars_no_newline [OF tempLabel_chars], of "''H''" m format]
  by (simp add: tempRow_def)

lemma baselineRow_no_newline: "CHR ''\<newline>'' \<notin> set (baselineRow format m sc)"
  using labelChars_no_newline [OF repeat2_chars, of "length sc"]
    bold_no_newline [OF labelChars_no_newline [OF tempLabel_chars], of "''L''" m format]
  by (simp add: baselineRow_def)

lemma strip_tempRow:
  "strip format (tempRow format m sc i) =
     (if i = 7 then tempLabel ''H'' m else PREFIX) @ tempCells sc i"
proof -
  have c: "strip format (tempCells sc i) = tempCells sc i"
    by (rule strip_plain_only, rule labelChars_plain, rule tempCells_chars)
  have "strip format (bold (tempLabel ''H'' m) format @ tempCells sc i)
          = tempLabel ''H'' m @ strip format (tempCells sc i)"
    by (rule strip_bold_plain, rule labelChars_plain, rule tempLabel_chars) simp
  then have h: "strip format (bold (tempLabel ''H'' m) format @ tempCells sc i)
          = tempLabel ''H'' m @ tempCells sc i"
    by (simp only: c)
  have "strip format (PREFIX @ tempCells sc i) = PREFIX @ strip format (tempCells sc i)"
    by (rule strip_plain, rule labelChars_plain, rule PREFIX_chars)
  then have p: "strip format (PREFIX @ tempCells sc i) = PREFIX @ tempCells sc i"
    by (simp only: c)
  show ?thesis
    using h p by (cases "i = 7") (simp_all add: tempRow_def tempGraphHeight_def)
qed

lemma strip_baselineRow:
  "strip format (baselineRow format m sc) = tempLabel ''L'' m @ repeat ''**'' (length sc)"
proof -
  have c: "strip format (repeat ''**'' (length sc)) = repeat ''**'' (length sc)"
    by (rule strip_plain_only, rule labelChars_plain, rule repeat2_chars)
  have "strip format (bold (tempLabel ''L'' m) format @ repeat ''**'' (length sc))
          = tempLabel ''L'' m @ strip format (repeat ''**'' (length sc))"
    by (rule strip_bold_plain, rule labelChars_plain, rule tempLabel_chars) simp
  then show ?thesis
    by (simp add: baselineRow_def c)
qed

lemma temperature_lines:
  "splitLines (renderTemperatureGraph f format) =
     map (tempRow format (Math_max (temps f)) (scaledTemps f)) (rev [1..<8])
     @ [baselineRow format (Math_min (temps f)) (scaledTemps f)]"
proof -
  have "renderTemperatureGraph f format =
      join ''\<newline>'' (map (tempRow format (Math_max (temps f)) (scaledTemps f)) (rev [1..<8])
        @ [baselineRow format (Math_min (temps f)) (scaledTemps f)])"
    unfolding renderTemperatureGraph_def Let_def tempGraphHeight_def tempLoop_unroll
    by (simp only: append_Nil Suc_numeral) simp
  moreover have "splitLines (join ''\<newline>'' (map (tempRow format (Math_max (temps f)) (scaledTemps f)) (rev [1..<8])
        @ [baselineRow format (Math_min (temps f)) (scaledTemps f)])) =
      map (tempRow format (Math_max (temps f)) (scaledTemps f)) (rev [1..<8])
        @ [baselineRow format (Math_min (temps f)) (scaledTemps f)]"
    by (rule splitLines_join) (auto simp: tempRow_no_newline baselineRow_no_newline)
  ultimately show ?thesis
    by simp
qed

lemma temperature_line_nth:
  assumes "r < 7"
  shows "splitLines (renderTemperatureGraph f format) ! r =
           tempRow format (Math_max (temps f)) (scaledTemps f) (7 - r)"
proof -
  have "rev [1..<8] ! r = 7 - r"
    using assms by (simp add: rev_nth)
  then show ?thesis
    using assms by (simp add: temperature_lines nth_append)
qed

lemma temperature_line_baseline:
  "splitLines (renderTemperatureGraph f format) ! 7 =
     baselineRow format (Math_min (temps f)) (scaledTemps f)"
  by (simp add: temperature_lines nth_append)

lemma cellAt_tempRow:
  assumes "j < length sc"
  shows "cellAt format (tempRow format m sc i) j =
           (if num_ge (sc ! j) (Fin (of_nat i)) then ''**'' else ''  '')"
proof -
  have "length (if i = 7 then tempLabel ''H'' m else PREFIX) = 9"
    by (simp add: length_tempLabel length_PREFIX)
  then have "cellAt format (tempRow format m sc i) j = take 2 (drop (2 * j) (tempCells sc i))"
    by (simp add: cellAt_def strip_tempRow)
  also have "\<dots> = (if num_ge (sc ! j) (Fin (of_nat i)) then ''**'' else ''  '')"
    unfolding tempCells_def using assms by (subst cell_at) simp_all
  finally show ?thesis .
qed

lemma cellAt_baselineRow:
  assumes "j < length sc"
  shows "cellAt format (baselineRow format m sc) j = ''**''"
proof -
  have "repeat ''**'' (length sc) = concat (map (\<lambda>x. ''**'') sc)"
    by (simp add: repeat_def map_replicate_const)
  then have "cellAt format (baselineRow format m sc) j
               = take 2 (drop (2 * j) (concat (map (\<lambda>x. ''**'') sc)))"
    by (simp add: cellAt_def strip_baselineRow length_tempLabel)
  also have "\<dots> = ''**''"
    using assms by (subst cell_at) simp_all
  finally show ?thesis .
qed

lemma num_ge_mono: "num_ge t (Fin a) \<Longrightarrow> b \<le> a \<Longrightarrow> num_ge t (Fin b)"
  by (cases t) simp_all

lemma length_scaledTemps: "length (scaledTemps f) = length (hourly f)"
  by (simp add: scaledTemps_def temps_def)





text \<open>
  C3. Bars of the temperature graph grow from the floor: a column filled in one row of the
  rendered graph is filled in every row below it, and in the baseline row, which is always
  full. Line \<open>r\<close> of the output (\<open>r = 0\<close> at the top) is row \<open>i = 7 - r\<close> of the graph, and
  line \<open>7\<close> is the baseline.
\<close>

theorem temperature_bars_monotone:
  assumes "j < length (hourly f)" and "r \<le> r'" and "r' \<le> 7"
    and "cellAt format (splitLines (renderTemperatureGraph f format) ! r) j = ''**''"
  shows "cellAt format (splitLines (renderTemperatureGraph f format) ! r') j = ''**''
     \<and> cellAt format (splitLines (renderTemperatureGraph f format) ! 7) j = ''**''"
proof -
  have j: "j < length (scaledTemps f)"
    using assms(1) by (simp add: length_scaledTemps)
  have base: "cellAt format (splitLines (renderTemperatureGraph f format) ! 7) j = ''**''"
    by (simp only: temperature_line_baseline cellAt_baselineRow [OF j])
  show ?thesis
  proof (cases "r' = 7")
    case True
    then show ?thesis
      using base by simp
  next
    case False
    then have r': "r' < 7" and r: "r < 7"
      using assms(2,3) by simp_all
    have "num_ge (scaledTemps f ! j) (Fin (of_nat (7 - r)))"
      using assms(4) by (simp add: temperature_line_nth [OF r] cellAt_tempRow [OF j] split: if_splits)
    then have "num_ge (scaledTemps f ! j) (Fin (of_nat (7 - r')))"
      by (rule num_ge_mono) (use assms(2) in simp)
    then have "cellAt format (splitLines (renderTemperatureGraph f format) ! r') j = ''**''"
      by (simp add: temperature_line_nth [OF r'] cellAt_tempRow [OF j])
    then show ?thesis
      using base by simp
  qed
qed

lemma sample3_top_filled:
  "cellAt tty (splitLines (renderTemperatureGraph (sample [hour 30 0, hour 40 0, hour 50 0]) tty) ! 0) 2 = ''**''"
  by code_simp

theorem temperature_bars_monotone_witness:
  "(2 :: nat) < length (hourly (sample [hour 30 0, hour 40 0, hour 50 0])) \<and> (0 :: nat) \<le> 3 \<and> (3 :: nat) \<le> 7
   \<and> cellAt tty (splitLines (renderTemperatureGraph (sample [hour 30 0, hour 40 0, hour 50 0]) tty) ! 0) 2 = ''**''
   \<and> cellAt tty (splitLines (renderTemperatureGraph (sample [hour 30 0, hour 40 0, hour 50 0]) tty) ! 3) 2 = ''**''
   \<and> cellAt tty (splitLines (renderTemperatureGraph (sample [hour 30 0, hour 40 0, hour 50 0]) tty) ! 7) 2 = ''**''"
proof -
  have j: "(2 :: nat) < length (hourly (sample [hour 30 0, hour 40 0, hour 50 0]))"
    by (simp add: sample_def)
  have r: "(0 :: nat) \<le> 3" "(3 :: nat) \<le> 7"
    by simp_all
  show ?thesis
    using temperature_bars_monotone [OF j r sample3_top_filled] j r sample3_top_filled
    by simp
qed

lemma scaleTemperature_degenerate: "scaleTemperature (Fin c) (Fin c) (Fin c) = NaN"
  by (simp add: scaleTemperature_def)

text \<open>
  C9 as stated fails: for a uniform series the scaled value is \<open>NaN\<close>.
\<close>

theorem scaling_degenerate_counterexample:
  "map HourlyForecast.feels_like (hourly (sample [hour 50 0, hour 50 0])) = [50, 50]
   \<and> scaledTemps (sample [hour 50 0, hour 50 0]) = [NaN, NaN]"
  by code_simp

text \<open>
  C9, amended. For a non-empty series whose feels-like values are all equal, the scaling
  divides zero by zero and every scaled value is \<open>NaN\<close>. Every comparison \<open>NaN >= i\<close> is
  false, so the renderer still returns eight lines: the seven graph rows are blank in every
  column and the baseline row is full.
\<close>

theorem scaling_degenerate_renders_flat:
  assumes "hourly f \<noteq> []"
    and "\<forall>h\<in>set (hourly f). HourlyForecast.feels_like h = c"
  shows "scaledTemps f = replicate (length (hourly f)) NaN
     \<and> length (splitLines (renderTemperatureGraph f format)) = 8
     \<and> (\<forall>j<length (hourly f).
          (\<forall>r<7. cellAt format (splitLines (renderTemperatureGraph f format) ! r) j = ''  '')
          \<and> cellAt format (splitLines (renderTemperatureGraph f format) ! 7) j = ''**'')"
proof -
  let ?ts = "map HourlyForecast.feels_like (hourly f)"
  have ne: "?ts \<noteq> []"
    using assms(1) by simp
  have s: "set ?ts = {c}"
    using assms by (cases "hourly f") auto
  have t: "temps f = map Fin ?ts"
    by (simp add: temps_def)
  have "scaledTemps f = map (\<lambda>h. NaN) (hourly f)"
    unfolding scaledTemps_def t Math_max_Fin [OF ne] Math_min_Fin [OF ne] s
    using assms(2) by (simp add: scaleTemperature_degenerate)
  then have sc: "scaledTemps f = replicate (length (hourly f)) NaN"
    by (simp add: map_replicate_const)
  have len: "length (splitLines (renderTemperatureGraph f format)) = 8"
    by (simp add: temperature_lines)
  have cells: "(\<forall>r<7. cellAt format (splitLines (renderTemperatureGraph f format) ! r) j = ''  '')
          \<and> cellAt format (splitLines (renderTemperatureGraph f format) ! 7) j = ''**''"
    if j: "j < length (hourly f)" for j
  proof -
    have j': "j < length (scaledTemps f)"
      using j by (simp add: length_scaledTemps)
    have n: "scaledTemps f ! j = NaN"
      using j by (simp add: sc)
    have "cellAt format (splitLines (renderTemperatureGraph f format) ! r) j = ''  ''"
      if "r < 7" for r
      by (simp add: temperature_line_nth [OF that] cellAt_tempRow [OF j'] n)
    moreover have "cellAt format (splitLines (renderTemperatureGraph f format) ! 7) j = ''**''"
      by (simp only: temperature_line_baseline cellAt_baselineRow [OF j'])
    ultimately show ?thesis
      by blast
  qed
  show ?thesis
    using sc len cells by blast
qed

theorem scaling_degenerate_renders_flat_witness:
  "hourly (sample [hour 50 0, hour 50 0]) \<noteq> []
   \<and> map HourlyForecast.feels_like (hourly (sample [hour 50 0, hour 50 0])) = [50, 50]
   \<and> scaledTemps (sample [hour 50 0, hour 50 0]) = [NaN, NaN]
   \<and> length (splitLines (renderTemperatureGraph (sample [hour 50 0, hour 50 0]) html)) = 8
   \<and> cellAt html (splitLines (renderTemperatureGraph (sample [hour 50 0, hour 50 0]) html) ! 0) 1 = ''  ''
   \<and> cellAt html (splitLines (renderTemperatureGraph (sample [hour 50 0, hour 50 0]) html) ! 7) 1 = ''**''"
proof -
  have a: "hourly (sample [hour 50 0, hour 50 0]) \<noteq> []"
    by (simp add: sample_def)
  have b: "\<forall>h\<in>set (hourly (sample [hour 50 0, hour 50 0])). HourlyForecast.feels_like h = 50"
    by (simp add: sample_def hour_def)
  have l: "length (hourly (sample [hour 50 0, hour 50 0])) = 2"
    by (simp add: sample_def)
  have r: "replicate 2 NaN = [NaN, NaN]"
    by (simp add: numeral_2_eq_2)
  have m: "map HourlyForecast.feels_like (hourly (sample [hour 50 0, hour 50 0])) = [50, 50]"
    by (simp add: sample_def hour_def)
  show ?thesis
    using scaling_degenerate_renders_flat [OF a b, of html] a m
    by (simp add: l r)
qed

subsection \<open>Rows of the precipitation graph\<close>

lemma precipRow_no_newline: "CHR ''\<newline>'' \<notin> set (precipRow format m sc i)"
  using cyan_no_newline [OF labelChars_no_newline [OF precipCells_chars], of sc i format]
    labelChars_no_newline [OF PREFIX_chars]
    cyan_no_newline [OF bold_no_newline [OF labelChars_no_newline [OF precipLabel_chars]],
      of m format format]
  by (simp add: precipRow_def Let_def)

lemma strip_precipRow:
  "strip format (precipRow format m sc i) =
     (if strict_eq (scalePrecipitation m) (Fin (of_nat i)) then precipLabel m else PREFIX)
     @ precipCells sc i"
proof -
  have "strip format (cyan (precipCells sc i) format @ []) = precipCells sc i @ strip format []"
    by (rule strip_cyan_plain, rule labelChars_plain, rule precipCells_chars)
  then have c: "strip format (cyan (precipCells sc i) format) = precipCells sc i"
    by simp
  have "strip format (cyan (bold (precipLabel m) format) format @ cyan (precipCells sc i) format)
          = precipLabel m @ strip format (cyan (precipCells sc i) format)"
    by (rule strip_cyan_bold_plain, rule labelChars_plain, rule precipLabel_chars)
  then have h: "strip format (cyan (bold (precipLabel m) format) format @ cyan (precipCells sc i) format)
          = precipLabel m @ precipCells sc i"
    by (simp only: c)
  have "strip format (PREFIX @ cyan (precipCells sc i) format)
          = PREFIX @ strip format (cyan (precipCells sc i) format)"
    by (rule strip_plain, rule labelChars_plain, rule PREFIX_chars)
  then have p: "strip format (PREFIX @ cyan (precipCells sc i) format) = PREFIX @ precipCells sc i"
    by (simp only: c)
  show ?thesis
    using h p
    by (cases "strict_eq (scalePrecipitation m) (Fin (of_nat i))")
       (simp_all add: precipRow_def Let_def)
qed

lemma join_not_Nil: "x \<noteq> [] \<Longrightarrow> join sep (x # xs) \<noteq> []"
  by (cases xs) simp_all

lemma precipRow_not_Nil: "precipRow format m sc i \<noteq> []"
  by (simp add: precipRow_def Let_def PREFIX_eq cyan_def)

lemma precipitation_empty_iff:
  "renderPrecipitationGraph f format = [] \<longleftrightarrow>
     strict_eq (Math_max (map (\<lambda>h. Fin (HourlyForecast.precipitation_probability h)) (hourly f))) (Fin 0)"
  using join_not_Nil [OF precipRow_not_Nil]
  by (simp add: renderPrecipitationGraph_rows Let_def)

lemma precipitation_lines:
  assumes "renderPrecipitationGraph f format \<noteq> []"
  shows "splitLines (renderPrecipitationGraph f format) =
     map (precipRow format
            (Math_max (map (\<lambda>h. Fin (HourlyForecast.precipitation_probability h)) (hourly f)))
            (map scalePrecipitation
               (map (\<lambda>h. Fin (HourlyForecast.precipitation_probability h)) (hourly f))))
       [1, 2, 3, 4, 5]"
proof -
  let ?ps = "map (\<lambda>h. Fin (HourlyForecast.precipitation_probability h)) (hourly f)"
  have "\<not> strict_eq (Math_max ?ps) (Fin 0)"
    using assms by (simp add: precipitation_empty_iff)
  then have "renderPrecipitationGraph f format =
      join ''\<newline>'' (map (precipRow format (Math_max ?ps) (map scalePrecipitation ?ps)) [1, 2, 3, 4, 5])"
    by (simp add: renderPrecipitationGraph_rows Let_def)
  moreover have "splitLines (join ''\<newline>''
        (map (precipRow format (Math_max ?ps) (map scalePrecipitation ?ps)) [1, 2, 3, 4, 5]))
      = map (precipRow format (Math_max ?ps) (map scalePrecipitation ?ps)) [1, 2, 3, 4, 5]"
    by (rule splitLines_join) (simp_all add: precipRow_no_newline)
  ultimately show ?thesis
    by simp
qed









subsection \<open>The time axis in closed form\<close>

lemma upt_two: "i + 2 \<le> m \<Longrightarrow> [i..<m] = i # Suc i # [i + 2..<m]"
  by (simp add: upt_conv_Cons)

lemma upt_one: "i + 1 \<le> m \<Longrightarrow> [i..<m] = i # [i + 1..<m]"
  by (simp add: upt_conv_Cons)

lemma axisSlot_label:
  "i mod 6 = 0 \<Longrightarrow> axisSlot format i = bold (take 4 (showNat i @ ''h   '')) format"
  by (simp add: axisSlot_def)

lemma axisSlot_covered: "i mod 6 = 0 \<Longrightarrow> axisSlot format (Suc i) = []"
proof -
  assume "i mod 6 = 0"
  then have "Suc i mod 6 = 1"
    by presburger
  then show ?thesis
    by (simp add: axisSlot_def)
qed

lemma axisSlot_blank: "i mod 6 \<noteq> 0 \<Longrightarrow> i mod 6 \<noteq> 1 \<Longrightarrow> axisSlot format i = ''  ''"
  by (simp add: axisSlot_def)

lemma timeLoop_final:
  assumes "0 < n" and "(n - 1) mod 6 \<noteq> 1" and "i \<le> n - 1" and "i mod 6 \<noteq> 1"
  shows "timeLoop format n i acc =
           acc @ concat (map (axisSlot format) [i..<n - 1]) @ bold (showNat (n - 1) @ ''h'') format"
  using assms(3,4)
proof (induction "n - i" arbitrary: i acc rule: less_induct)
  case less
  have lt: "i < n"
    using less.prems(1) assms(1) by linarith
  show ?case
  proof (cases "i = n - 1")
    case True
    then show ?thesis
      using lt by (subst timeLoop.simps) simp
  next
    case False
    show ?thesis
    proof (cases "i mod 6 = 0")
      case True
      have "Suc i mod 6 = 1"
        using True by presburger
      then have "Suc i \<noteq> n - 1"
        using assms(2) by auto
      then have le: "i + 2 \<le> n - 1"
        using False less.prems(1) by linarith
      have m: "(i + 2) mod 6 \<noteq> 1"
        using True by presburger
      have d: "n - (i + 2) < n - i"
        using lt by linarith
      have "timeLoop format n i acc =
              timeLoop format n (i + 2) (acc @ bold (take 4 (showNat i @ ''h   '')) format)"
        using lt False True by (subst timeLoop.simps) simp
      moreover have "\<dots> = (acc @ bold (take 4 (showNat i @ ''h   '')) format)
            @ concat (map (axisSlot format) [i + 2..<n - 1]) @ bold (showNat (n - 1) @ ''h'') format"
        by (rule less.hyps [OF d le m])
      moreover have "concat (map (axisSlot format) [i..<n - 1]) =
            bold (take 4 (showNat i @ ''h   '')) format @ concat (map (axisSlot format) [i + 2..<n - 1])"
        by (simp only: upt_two [OF le] list.map concat.simps axisSlot_label [OF True]
              axisSlot_covered [OF True] append_Nil)
      ultimately show ?thesis
        by (simp only: append_assoc)
    next
      case nz: False
      have le: "i + 1 \<le> n - 1"
        using False less.prems(1) by linarith
      have m: "(i + 1) mod 6 \<noteq> 1"
        using nz by presburger
      have d: "n - (i + 1) < n - i"
        using lt by linarith
      have "timeLoop format n i acc = timeLoop format n (i + 1) (acc @ ''  '')"
        using lt False nz by (subst timeLoop.simps) simp
      moreover have "\<dots> = (acc @ ''  '')
            @ concat (map (axisSlot format) [i + 1..<n - 1]) @ bold (showNat (n - 1) @ ''h'') format"
        by (rule less.hyps [OF d le m])
      moreover have "concat (map (axisSlot format) [i..<n - 1]) =
            ''  '' @ concat (map (axisSlot format) [i + 1..<n - 1])"
        by (simp only: upt_one [OF le] list.map concat.simps axisSlot_blank [OF nz less.prems(2)])
      ultimately show ?thesis
        by (simp only: append_assoc)
    qed
  qed
qed

lemma timeLoop_covered:
  assumes "n mod 6 = 2" and "i \<le> n" and "i mod 6 \<noteq> 1"
  shows "timeLoop format n i acc = acc @ concat (map (axisSlot format) [i..<n])"
  using assms(2,3)
proof (induction "n - i" arbitrary: i acc rule: less_induct)
  case less
  show ?case
  proof (cases "i = n")
    case True
    then show ?thesis
      by (subst timeLoop.simps) simp
  next
    case False
    then have lt: "i < n"
      using less.prems(1) by linarith
    have nl: "i \<noteq> n - 1"
      using assms(1) less.prems(2) lt by presburger
    show ?thesis
    proof (cases "i mod 6 = 0")
      case True
      have le: "i + 2 \<le> n"
        using lt nl by linarith
      have m: "(i + 2) mod 6 \<noteq> 1"
        using True by presburger
      have d: "n - (i + 2) < n - i"
        using lt by linarith
      have "timeLoop format n i acc =
              timeLoop format n (i + 2) (acc @ bold (take 4 (showNat i @ ''h   '')) format)"
        using lt nl True by (subst timeLoop.simps) simp
      moreover have "\<dots> = (acc @ bold (take 4 (showNat i @ ''h   '')) format)
            @ concat (map (axisSlot format) [i + 2..<n])"
        by (rule less.hyps [OF d le m])
      moreover have "concat (map (axisSlot format) [i..<n]) =
            bold (take 4 (showNat i @ ''h   '')) format @ concat (map (axisSlot format) [i + 2..<n])"
        by (simp only: upt_two [OF le] list.map concat.simps axisSlot_label [OF True]
              axisSlot_covered [OF True] append_Nil)
      ultimately show ?thesis
        by (simp only: append_assoc)
    next
      case nz: False
      have le: "i + 1 \<le> n"
        using lt by linarith
      have m: "(i + 1) mod 6 \<noteq> 1"
        using nz by presburger
      have d: "n - (i + 1) < n - i"
        using lt by linarith
      have "timeLoop format n i acc = timeLoop format n (i + 1) (acc @ ''  '')"
        using lt nl nz by (subst timeLoop.simps) simp
      moreover have "\<dots> = (acc @ ''  '') @ concat (map (axisSlot format) [i + 1..<n])"
        by (rule less.hyps [OF d le m])
      moreover have "concat (map (axisSlot format) [i..<n]) =
            ''  '' @ concat (map (axisSlot format) [i + 1..<n])"
        by (simp only: upt_one [OF le] list.map concat.simps axisSlot_blank [OF nz less.prems(2)])
      ultimately show ?thesis
        by (simp only: append_assoc)
    qed
  qed
qed

lemma time_axis_final:
  assumes "length (hourly f) = n" and "0 < n" and "n mod 6 \<noteq> 2"
  shows "renderTimeOffsets f format =
           PREFIX @ concat (map (axisSlot format) [0..<n - 1]) @ bold (showNat (n - 1) @ ''h'') format"
proof -
  obtain m where m: "n = Suc m"
    using assms(2) by (cases n) auto
  have "m mod 6 \<noteq> 1"
    using assms(3) unfolding m by (auto simp: mod_Suc split: if_splits)
  then have "(n - 1) mod 6 \<noteq> 1"
    by (simp add: m)
  then have "timeLoop format n 0 PREFIX =
      PREFIX @ concat (map (axisSlot format) [0..<n - 1]) @ bold (showNat (n - 1) @ ''h'') format"
    using assms(2) by (intro timeLoop_final) simp_all
  then show ?thesis
    by (simp only: renderTimeOffsets_def assms(1))
qed

lemma time_axis_covered:
  assumes "length (hourly f) = n" and "n mod 6 = 2"
  shows "renderTimeOffsets f format = PREFIX @ concat (map (axisSlot format) [0..<n])"
proof -
  have "timeLoop format n 0 PREFIX = PREFIX @ concat (map (axisSlot format) [0..<n])"
    using assms(2) by (intro timeLoop_covered) simp_all
  then show ?thesis
    by (simp only: renderTimeOffsets_def assms(1))
qed


text \<open>
  C5 as stated fails: with eight columns the label at column 6 takes the slot of column 7,
  the cursor skips the last column, and no label for offset 7 is printed.
\<close>

theorem time_axis_final_label_counterexample:
  "length (hourly (sample (replicate 8 (hour 50 0)))) = 8
   \<and> renderTimeOffsets (sample (replicate 8 (hour 50 0))) tty
       = PREFIX @ bold ''0h  '' tty @ ''        '' @ bold ''6h  '' tty"
  by code_simp

text \<open>
  C5, amended. For a series of \<open>n > 0\<close> entries with \<open>n mod 6 \<noteq> 2\<close>, the time axis is the
  prefix, then one slot for each column before the last (a bold four-character label
  \<open>"<i>h"\<close> at every column \<open>i\<close> that is a multiple of six, which also covers column \<open>i + 1\<close>,
  and two blanks elsewhere), then the bold label \<open>"<n - 1>h"\<close> of the last column. For 25
  columns the labels are 0h, 6h, 12h, 18h and 24h.
\<close>

theorem time_axis_labels:
  assumes "length (hourly f) = n" and "0 < n" and "n mod 6 \<noteq> 2"
  shows "renderTimeOffsets f format =
           PREFIX @ concat (map (axisSlot format) [0..<n - 1]) @ bold (showNat (n - 1) @ ''h'') format"
  using assms by (rule time_axis_final)

lemma axis_25:
  "PREFIX @ concat (map (axisSlot html) [0..<25 - 1]) @ bold (showNat (25 - 1) @ ''h'') html
   = PREFIX @ ''<strong>0h  </strong>        <strong>6h  </strong>        <strong>12h </strong>        <strong>18h </strong>        <strong>24h</strong>''"
  by code_simp

theorem time_axis_labels_witness:
  "length (hourly (sample (replicate 25 (hour 50 0)))) = 25 \<and> (0 :: nat) < 25
   \<and> (25 :: nat) mod 6 \<noteq> 2
   \<and> renderTimeOffsets (sample (replicate 25 (hour 50 0))) html
       = PREFIX @ ''<strong>0h  </strong>        <strong>6h  </strong>        <strong>12h </strong>        <strong>18h </strong>        <strong>24h</strong>''"
proof -
  have a: "length (hourly (sample (replicate 25 (hour 50 0)))) = 25"
    by (simp add: sample_def)
  have b: "(0 :: nat) < 25" and c: "(25 :: nat) mod 6 \<noteq> 2"
    by simp_all
  show ?thesis
    using time_axis_labels [OF a b c, of html] a b c axis_25 by simp
qed

subsection \<open>Widths\<close>

declare strip.simps(2) [simp del]

lemma showNat_small: "k < 10 \<Longrightarrow> length (showNat k) = 1"
  by (subst showNat.simps) simp

lemma showNat_two: "10 \<le> k \<Longrightarrow> k < 100 \<Longrightarrow> length (showNat k) = 2"
proof -
  assume a: "10 \<le> k" "k < 100"
  then have "k div 10 < 10"
    by simp
  then have "length (showNat (k div 10)) = 1"
    by (rule showNat_small)
  then show ?thesis
    using a by (subst showNat.simps) simp
qed

lemma showNat_labelChars: "set (showNat k) \<subseteq> labelChars"
  using showNat_chars [of k] by (rule subset_trans) (simp add: labelChars_def)

lemma marker_chars: "set (take 4 (showNat i @ ''h   '')) \<subseteq> labelChars"
proof -
  have "set (showNat i @ ''h   '') \<subseteq> labelChars"
    using showNat_labelChars [of i] by (simp add: labelChars_def)
  with set_take_subset show ?thesis
    by (rule subset_trans)
qed

lemma marker_length: "length (take 4 (showNat i @ ''h   '')) = 4"
  by simp

lemma final_chars: "set (showNat k @ ''h'') \<subseteq> labelChars"
  using showNat_labelChars [of k] by (simp add: labelChars_def)

lemma strip_axisSlot:
  "length (strip format (axisSlot format i @ rest)) = slotWidth i + length (strip format rest)"
proof -
  let ?mk = "take 4 (showNat i @ ''h   '')"
  have "strip format (bold ?mk format @ rest) = ?mk @ strip format rest"
    by (rule strip_bold_plain, rule labelChars_plain, rule marker_chars)
  then have l: "length (strip format (bold ?mk format @ rest)) = 4 + length (strip format rest)"
    by (simp only: length_append marker_length)
  have "strip format (''  '' @ rest) = ''  '' @ strip format rest"
    by (rule strip_plain, rule labelChars_plain) (simp add: labelChars_def)
  then have b: "length (strip format (''  '' @ rest)) = 2 + length (strip format rest)"
    by (simp only: length_append) simp
  show ?thesis
  proof (cases "i mod 6 = 0")
    case True
    then show ?thesis
      using l by (simp add: axisSlot_def slotWidth_def)
  next
    case False
    then show ?thesis
      using b by (cases "i mod 6 = 1") (simp_all add: axisSlot_def slotWidth_def)
  qed
qed

lemma strip_axisSlots:
  "length (strip format (concat (map (axisSlot format) js) @ rest))
     = sum_list (map slotWidth js) + length (strip format rest)"
  by (induction js) (simp_all add: strip_axisSlot)

lemma slotWidth_sum: "sum_list (map slotWidth [0..<m]) = 2 * m + (if m mod 6 = 1 then 2 else 0)"
proof (induction m)
  case 0
  then show ?case by simp
next
  case (Suc m)
  have "m mod 6 < 6"
    by simp
  then have "m mod 6 = 0 \<or> m mod 6 = 1 \<or> m mod 6 = 2 \<or> m mod 6 = 3 \<or> m mod 6 = 4 \<or> m mod 6 = 5"
    by linarith
  then show ?case
    using Suc by (auto simp: slotWidth_def mod_Suc)
qed

lemma strip_final:
  "length (strip format (bold (showNat k @ ''h'') format)) = length (showNat k) + 1"
proof -
  have "strip format (bold (showNat k @ ''h'') format @ []) = (showNat k @ ''h'') @ strip format []"
    by (rule strip_bold_plain, rule labelChars_plain, rule final_chars)
  then show ?thesis
    by simp
qed

lemma time_axis_width_final:
  assumes "length (hourly f) = n" and "0 < n" and "n mod 6 \<noteq> 2"
  shows "length (strip format (renderTimeOffsets f format)) = 8 + 2 * n + length (showNat (n - 1))"
proof -
  obtain m where m: "n = Suc m"
    using assms(2) by (cases n) auto
  have m1: "m mod 6 \<noteq> 1"
    using assms(3) unfolding m by (auto simp: mod_Suc split: if_splits)
  have "strip format (PREFIX @ concat (map (axisSlot format) [0..<m]) @ bold (showNat m @ ''h'') format)
      = PREFIX @ strip format (concat (map (axisSlot format) [0..<m]) @ bold (showNat m @ ''h'') format)"
    by (rule strip_plain, rule labelChars_plain, rule PREFIX_chars)
  then have "length (strip format (PREFIX @ concat (map (axisSlot format) [0..<m]) @ bold (showNat m @ ''h'') format))
      = 9 + (2 * m + (length (showNat m) + 1))"
    using m1 by (simp add: strip_axisSlots slotWidth_sum strip_final length_PREFIX)
  then show ?thesis
    using time_axis_final [OF assms, of format] by (simp add: m)
qed

lemma time_axis_width_covered:
  assumes "length (hourly f) = n" and "n mod 6 = 2"
  shows "length (strip format (renderTimeOffsets f format)) = 9 + 2 * n"
proof -
  have "strip format (PREFIX @ concat (map (axisSlot format) [0..<n]) @ [])
      = PREFIX @ strip format (concat (map (axisSlot format) [0..<n]) @ [])"
    by (rule strip_plain, rule labelChars_plain, rule PREFIX_chars)
  then have "length (strip format (PREFIX @ concat (map (axisSlot format) [0..<n]) @ []))
      = 9 + 2 * n"
    using assms(2) by (simp only: length_append strip_axisSlots slotWidth_sum length_PREFIX) simp
  then show ?thesis
    using time_axis_covered [OF assms, of format] by simp
qed

lemma length_strip_tempRow: "length (strip format (tempRow format m sc i)) = 9 + 2 * length sc"
  by (simp add: strip_tempRow length_tempLabel length_PREFIX length_tempCells)

lemma length_strip_baselineRow:
  "length (strip format (baselineRow format m sc)) = 9 + 2 * length sc"
  by (simp add: strip_baselineRow length_tempLabel length_repeat2)

lemma length_strip_precipRow: "length (strip format (precipRow format m sc i)) = 9 + 2 * length sc"
  by (simp add: strip_precipRow length_precipLabel length_PREFIX length_precipCells)

text \<open>
  C6 as stated fails: with the standard 25 columns the temperature rows are 59 characters
  wide, and the time axis is 60, because its last label \<open>24h\<close> takes three characters.
\<close>

theorem alignment_counterexample:
  "length (hourly (sample (replicate 25 (hour 50 0)))) = 25
   \<and> length (strip tty (splitLines (renderTemperatureGraph (sample (replicate 25 (hour 50 0))) tty) ! 0)) = 59
   \<and> length (strip tty (renderTimeOffsets (sample (replicate 25 (hour 50 0))) tty)) = 60"
  by code_simp

text \<open>
  C6, amended. For a forecast of \<open>n\<close> hourly entries, \<open>0 < n \<le> 25\<close>, with decoration
  stripped: every row of the temperature graph, the baseline included, and every row of the
  precipitation graph has \<open>9 + 2n\<close> characters. The time axis has \<open>9 + 2n\<close> characters when
  \<open>n \<le> 10\<close> or \<open>n mod 6 = 2\<close>, and one more otherwise, because the label of the last column
  then has three characters; it still starts in that column.
\<close>

theorem alignment_widths:
  assumes "length (hourly f) = n" and "0 < n" and "n \<le> 25"
  shows "(\<forall>l\<in>set (splitLines (renderTemperatureGraph f format)).
            length (strip format l) = 9 + 2 * n)
     \<and> (renderPrecipitationGraph f format \<noteq> [] \<longrightarrow>
          (\<forall>l\<in>set (splitLines (renderPrecipitationGraph f format)).
             length (strip format l) = 9 + 2 * n))
     \<and> length (strip format (renderTimeOffsets f format))
          = (if n \<le> 10 \<or> n mod 6 = 2 then 9 + 2 * n else 10 + 2 * n)"
proof -
  have t: "\<forall>l\<in>set (splitLines (renderTemperatureGraph f format)).
            length (strip format l) = 9 + 2 * n"
    by (auto simp: temperature_lines length_strip_tempRow length_strip_baselineRow
          length_scaledTemps assms(1))
  have p: "\<forall>l\<in>set (splitLines (renderPrecipitationGraph f format)).
             length (strip format l) = 9 + 2 * n"
    if "renderPrecipitationGraph f format \<noteq> []"
    by (simp add: precipitation_lines [OF that] length_strip_precipRow assms(1))
  have a: "length (strip format (renderTimeOffsets f format))
          = (if n \<le> 10 \<or> n mod 6 = 2 then 9 + 2 * n else 10 + 2 * n)"
  proof (cases "n mod 6 = 2")
    case True
    then show ?thesis
      using time_axis_width_covered [OF assms(1) True, of format] by simp
  next
    case False
    show ?thesis
    proof (cases "n \<le> 10")
      case True
      then have "length (showNat (n - 1)) = 1"
        using assms(2) by (intro showNat_small) linarith
      then show ?thesis
        using time_axis_width_final [OF assms(1,2) False, of format] True by simp
    next
      case big: False
      then have "length (showNat (n - 1)) = 2"
        using assms(3) by (intro showNat_two) linarith+
      then show ?thesis
        using time_axis_width_final [OF assms(1,2) False, of format] big False by simp
    qed
  qed
  show ?thesis
    using t p a by blast
qed

lemma sample3_rain_lines:
  "renderPrecipitationGraph (sample [hour 30 (1 / 2), hour 40 0, hour 50 1]) html \<noteq> []
   \<and> splitLines (renderTemperatureGraph (sample [hour 30 (1 / 2), hour 40 0, hour 50 1]) html) ! 0
       \<in> set (splitLines (renderTemperatureGraph (sample [hour 30 (1 / 2), hour 40 0, hour 50 1]) html))
   \<and> splitLines (renderPrecipitationGraph (sample [hour 30 (1 / 2), hour 40 0, hour 50 1]) html) ! 4
       \<in> set (splitLines (renderPrecipitationGraph (sample [hour 30 (1 / 2), hour 40 0, hour 50 1]) html))"
  by code_simp

theorem alignment_widths_witness:
  "length (hourly (sample [hour 30 (1 / 2), hour 40 0, hour 50 1])) = 3 \<and> (0 :: nat) < 3 \<and> (3 :: nat) \<le> 25
   \<and> length (strip html (splitLines (renderTemperatureGraph (sample [hour 30 (1 / 2), hour 40 0, hour 50 1]) html) ! 0)) = 15
   \<and> length (strip html (splitLines (renderPrecipitationGraph (sample [hour 30 (1 / 2), hour 40 0, hour 50 1]) html) ! 4)) = 15
   \<and> length (strip html (renderTimeOffsets (sample [hour 30 (1 / 2), hour 40 0, hour 50 1]) html)) = 15"
proof -
  have a: "length (hourly (sample [hour 30 (1 / 2), hour 40 0, hour 50 1])) = 3"
    by (simp add: sample_def)
  have b: "(0 :: nat) < 3" and c: "(3 :: nat) \<le> 25"
    by simp_all
  show ?thesis
    using alignment_widths [OF a b c, of html] sample3_rain_lines a by simp
qed

subsection \<open>The composed report\<close>

















subsection \<open>Decoration\<close>

lemma tagStart_once: "t \<in> set (decorations format) \<Longrightarrow> tagStart format \<notin> set (tl t)"
  by (cases format) (auto simp: decorations_def tagStart_def ESC_def)

lemma no_straddle:
  assumes "t \<in> set (decorations format)" and "rest \<noteq> []" and "hd rest = tagStart format"
    and "xs \<noteq> []"
  shows "prefix t (xs @ rest) \<longleftrightarrow> prefix t xs"
proof
  assume "prefix t xs"
  then show "prefix t (xs @ rest)"
    by (rule prefix_prefix)
next
  assume p: "prefix t (xs @ rest)"
  show "prefix t xs"
  proof (rule ccontr)
    assume n: "\<not> prefix t xs"
    then obtain us where us: "prefix us rest" "t = xs @ us"
      using p by (auto simp: prefix_append)
    have "us \<noteq> []"
      using n us(2) by auto
    then have "hd us = tagStart format"
      using us(1) assms(2,3) by (cases us; cases rest) auto
    then have "tagStart format \<in> set us"
      using \<open>us \<noteq> []\<close> by (metis hd_in_set)
    then have "tagStart format \<in> set (tl t)"
      using us(2) assms(4) by (cases xs) auto
    then show False
      using tagStart_once [OF assms(1)] by simp
  qed
qed

lemma find_no_straddle:
  assumes "rest \<noteq> []" and "hd rest = tagStart format"
  shows "find (\<lambda>t. prefix t (c # cs @ rest)) (decorations format)
           = find (\<lambda>t. prefix t (c # cs)) (decorations format)"
proof (rule find_cong [OF refl])
  fix t assume "t \<in> set (decorations format)"
  then have "prefix t ((c # cs) @ rest) \<longleftrightarrow> prefix t (c # cs)"
    using assms by (rule no_straddle) simp
  then show "prefix t (c # cs @ rest) = prefix t (c # cs)"
    by simp
qed

lemma strip_append_tag:
  assumes "rest \<noteq> []" and "hd rest = tagStart format"
  shows "strip format (s @ rest) = strip format s @ strip format rest"
  using assms
proof (induction format s rule: strip.induct)
  case (1 format)
  then show ?case by simp
next
  case (2 format c cs)
  note f = find_no_straddle [OF "2.prems", where c = c and cs = cs]
  show ?case
  proof (cases "find (\<lambda>t. prefix t (c # cs)) (decorations format)")
    case None
    have fn: "find (\<lambda>t. prefix t (c # cs @ rest)) (decorations format) = None"
      by (simp only: f None)
    have "strip format ((c # cs) @ rest) = c # strip format (cs @ rest)"
      by (simp add: strip.simps(2) fn)
    also have "\<dots> = c # strip format cs @ strip format rest"
      using "2.IH"(1) [OF None "2.prems"] by simp
    also have "\<dots> = strip format (c # cs) @ strip format rest"
      using None by (simp add: strip.simps(2))
    finally show ?thesis .
  next
    case (Some t)
    then have "prefix t (c # cs)"
      by (auto simp: find_Some_iff)
    then have len: "length t \<le> length (c # cs)"
      by (rule prefix_length_le)
    have fs: "find (\<lambda>t. prefix t (c # cs @ rest)) (decorations format) = Some t"
      by (simp only: f Some)
    have s1: "strip format ((c # cs) @ rest) = strip format (drop (length t) ((c # cs) @ rest))"
      by (simp add: strip.simps(2) fs)
    have d: "drop (length t) ((c # cs) @ rest) = drop (length t) (c # cs) @ rest"
      using len unfolding drop_append by simp
    have s2: "strip format (drop (length t) (c # cs) @ rest)
                = strip format (drop (length t) (c # cs)) @ strip format rest"
      by (rule "2.IH"(2) [OF Some "2.prems"])
    have s3: "strip format (c # cs) = strip format (drop (length t) (c # cs))"
      using Some by (simp add: strip.simps(2))
    show ?thesis
      by (simp only: s1 d s2 s3)
  qed
qed

lemma decoration_start: "t \<in> set (decorations format) \<Longrightarrow> t \<noteq> [] \<and> hd t = tagStart format"
  by (cases format) (auto simp: decorations_def tagStart_def)

lemma strip_wrapped:
  assumes "t1 \<in> set (decorations format)" and "t2 \<in> set (decorations format)"
  shows "strip format (t1 @ s @ t2) = strip format s"
proof -
  have "strip format (t1 @ s @ t2) = strip format (s @ t2)"
    using assms(1) by (rule strip_decoration)
  also have "\<dots> = strip format s @ strip format t2"
    using decoration_start [OF assms(2)] by (intro strip_append_tag) simp_all
  also have "strip format t2 = []"
    using strip_decoration [OF assms(2), of "[]"] by simp
  finally show ?thesis
    by simp
qed

lemma strip_bold: "strip format (bold s format) = strip format s"
proof -
  obtain t1 t2 where t: "t1 \<in> set (decorations format)" "t2 \<in> set (decorations format)"
    and b: "\<And>a. bold a format = t1 @ a @ t2"
    using bold_shape [of format] by blast
  show ?thesis
    unfolding b using t by (rule strip_wrapped)
qed

lemma strip_cyan: "strip format (cyan s format) = strip format s"
proof -
  obtain t1 t2 where t: "t1 \<in> set (decorations format)" "t2 \<in> set (decorations format)"
    and b: "\<And>a. cyan a format = t1 @ a @ t2"
    using cyan_shape [of format] by blast
  show ?thesis
    unfolding b using t by (rule strip_wrapped)
qed

lemma sublist_bold: "sublist s (bold s format)"
proof -
  obtain t1 t2 where "\<And>a. bold a format = t1 @ a @ t2"
    using bold_shape [of format] by blast
  then show ?thesis
    by (simp only: sublist_appendI)
qed

lemma sublist_cyan: "sublist s (cyan s format)"
proof -
  obtain t1 t2 where "\<And>a. cyan a format = t1 @ a @ t2"
    using cyan_shape [of format] by blast
  then show ?thesis
    by (simp only: sublist_appendI)
qed

lemma strip_undecorated:
  "\<forall>t\<in>set (decorations format). \<not> sublist t s \<Longrightarrow> strip format s = s"
proof (induction s)
  case Nil
  then show ?case by simp
next
  case (Cons c cs)
  have "\<forall>t\<in>set (decorations format). \<not> prefix t (c # cs)"
    using Cons.prems by (meson prefix_imp_sublist)
  then have n: "find (\<lambda>t. prefix t (c # cs)) (decorations format) = None"
    by (simp add: find_None_iff)
  have "\<forall>t\<in>set (decorations format). \<not> sublist t cs"
    using Cons.prems by (meson sublist_Cons_right)
  then have "strip format cs = cs"
    by (rule Cons.IH)
  then show ?case
    using n by (simp add: strip.simps(2))
qed

text \<open>
  C7 as stated fails for a text that itself contains a decoration sequence: stripping all
  decoration removes that sequence too.
\<close>

theorem decoration_round_trip_counterexample:
  "strip html (cyan (bold ''<strong>'' html) html) = []
   \<and> strip html (cyan (bold ''<strong>'' html) html) \<noteq> ''<strong>''
   \<and> strip tty (bold (cyan ([ESC] @ ''[0m'') tty) tty) \<noteq> [ESC] @ ''[0m''"
  by code_simp

text \<open>
  C7, amended. For every text \<open>s\<close> and both formats, \<open>cyan(bold(s))\<close> and \<open>bold(cyan(s))\<close>
  contain \<open>s\<close> as a contiguous substring, and stripping all decoration from either gives
  what stripping \<open>s\<close> itself gives; this is exactly \<open>s\<close> whenever \<open>s\<close> contains no decoration
  sequence of the format.
\<close>

theorem decoration_round_trip:
  "sublist s (cyan (bold s format) format)
   \<and> sublist s (bold (cyan s format) format)
   \<and> strip format (cyan (bold s format) format) = strip format s
   \<and> strip format (bold (cyan s format) format) = strip format s
   \<and> ((\<forall>t\<in>set (decorations format). \<not> sublist t s) \<longrightarrow>
        strip format (cyan (bold s format) format) = s
        \<and> strip format (bold (cyan s format) format) = s)"
proof -
  have a: "sublist s (cyan (bold s format) format)"
    using sublist_bold [of s format] sublist_cyan [of "bold s format" format]
    by (rule sublist_order.order_trans)
  have b: "sublist s (bold (cyan s format) format)"
    using sublist_cyan [of s format] sublist_bold [of "cyan s format" format]
    by (rule sublist_order.order_trans)
  have c: "strip format (cyan (bold s format) format) = strip format s"
    by (simp only: strip_cyan strip_bold)
  have d: "strip format (bold (cyan s format) format) = strip format s"
    by (simp only: strip_cyan strip_bold)
  have e: "strip format (cyan (bold s format) format) = s
        \<and> strip format (bold (cyan s format) format) = s"
    if "\<forall>t\<in>set (decorations format). \<not> sublist t s"
    using strip_undecorated [OF that] c d by simp
  show ?thesis
    using a b c d e by (intro conjI impI) blast+
qed

lemma rain_undecorated:
  "(\<forall>t\<in>set (decorations html). \<not> sublist t ''Rain'')
   \<and> (\<forall>t\<in>set (decorations tty). \<not> sublist t ''Rain'')"
  by code_simp

theorem decoration_round_trip_witness:
  "strip html (cyan (bold ''Rain'' html) html) = ''Rain''
   \<and> strip html (bold (cyan ''Rain'' html) html) = ''Rain''
   \<and> strip tty (cyan (bold ''Rain'' tty) tty) = ''Rain''
   \<and> strip tty (bold (cyan ''Rain'' tty) tty) = ''Rain''
   \<and> sublist ''Rain'' (cyan (bold ''Rain'' tty) tty)
   \<and> sublist ''Rain'' (bold (cyan ''Rain'' html) html)"
  using decoration_round_trip [of "''Rain''" html] decoration_round_trip [of "''Rain''" tty]
    rain_undecorated
  by blast

subsection \<open>Normalizer\<close>

lemma getProp_absent: "absent v \<Longrightarrow> getProp v k = Inl TypeError"
  by (auto simp: absent_def getProp_def)

lemma getProp_present: "\<not> absent v \<Longrightarrow> getProp v k = Inr (memberOf v k)"
  by (cases v) (simp_all add: absent_def getProp_def memberOf_def)

lemma memberOf_absent: "absent v \<Longrightarrow> memberOf v k = Undefined"
  by (simp add: memberOf_def getProp_absent)

lemma absent_Undefined: "absent Undefined"
  by (simp add: absent_def)

lemma andThen_Inr: "andThen (Inr x) k = k x"
  by (simp add: andThen_def)

lemma andThen_Inl: "andThen (Inl e) k = Inl e"
  by (simp add: andThen_def)

lemma onlyTypeError_andThen:
  "onlyTypeError r \<Longrightarrow> (\<And>x. onlyTypeError (k x)) \<Longrightarrow> onlyTypeError (andThen r k)"
  by (cases r) (simp_all add: onlyTypeError_def andThen_def)

lemma onlyTypeError_getProp: "onlyTypeError (getProp v k)"
  by (cases "absent v") (simp_all add: getProp_absent getProp_present onlyTypeError_def)

lemma onlyTypeError_Inr: "onlyTypeError (Inr x)"
  by (simp add: onlyTypeError_def)

lemma onlyTypeError_mapE: "(\<And>x. onlyTypeError (g x)) \<Longrightarrow> onlyTypeError (mapE g xs)"
  by (induction xs) (simp_all add: onlyTypeError_Inr onlyTypeError_andThen)

lemma onlyTypeError_transformHour: "onlyTypeError (transformHour h)"
  unfolding transformHour_def
  by (intro onlyTypeError_andThen onlyTypeError_getProp onlyTypeError_Inr)

lemma onlyTypeError_mapArray:
  assumes "\<And>x. onlyTypeError (g x)"
  shows "onlyTypeError (mapArray g v)"
proof (cases v)
  case (JArr xs)
  then show ?thesis
    using onlyTypeError_mapE [of g xs, OF assms] by (simp add: mapArray_def)
qed (simp_all add: mapArray_def onlyTypeError_def)

lemma onlyTypeError_sliceMap:
  assumes "\<And>x. onlyTypeError (g x)"
  shows "onlyTypeError (sliceMap g v)"
proof (cases v)
  case (JArr xs)
  then show ?thesis
    using onlyTypeError_mapE [of g "take 25 xs", OF assms] by (simp add: sliceMap_def)
qed (simp_all add: sliceMap_def onlyTypeError_def)

lemma onlyTypeError_alerts:
  "onlyTypeError (if truthy al then mapArray (\<lambda>a. getProp a ''title'') al else Inr [])"
  by (simp add: onlyTypeError_mapArray onlyTypeError_getProp onlyTypeError_Inr)

lemma onlyTypeError_transform: "onlyTypeError (transformDarkSkyForecast data)"
  unfolding transformDarkSkyForecast_def
  by (intro onlyTypeError_andThen onlyTypeError_getProp onlyTypeError_alerts
        onlyTypeError_sliceMap onlyTypeError_transformHour onlyTypeError_Inr)

lemma andThen_Inr_iff: "andThen r k = Inr v \<longleftrightarrow> (\<exists>x. r = Inr x \<and> k x = Inr v)"
  by (cases r) (simp_all add: andThen_def)

lemma getProp_Inr_iff: "getProp v k = Inr x \<longleftrightarrow> \<not> absent v \<and> x = memberOf v k"
  by (cases "absent v") (auto simp: getProp_absent getProp_present)

lemma sliceMap_Inr: "sliceMap g v = Inr ys \<Longrightarrow> isArray v"
  by (cases v) (simp_all add: sliceMap_def isArray_def)

lemma isArray_present: "isArray v \<Longrightarrow> \<not> absent v"
  by (cases v) (simp_all add: isArray_def absent_def)

lemma transform_success_present:
  assumes "transformDarkSkyForecast data = Inr fc"
  shows "\<not> absent (memberOf data ''currently'') \<and> \<not> absent (memberOf data ''hourly'')
     \<and> isArray (memberOf (memberOf data ''hourly'') ''data'')"
  using assms unfolding transformDarkSkyForecast_def
  by (auto simp: andThen_Inr_iff getProp_Inr_iff dest: sliceMap_Inr)

lemma mapE_getProp:
  "\<forall>x\<in>set xs. \<not> absent x \<Longrightarrow> mapE (\<lambda>a. getProp a k) xs = Inr (map (\<lambda>a. memberOf a k) xs)"
  by (induction xs) (simp_all add: getProp_present andThen_Inr)

lemma transformHour_present: "\<not> absent h \<Longrightarrow> transformHour h = Inr (hourOf h)"
  by (simp add: transformHour_def hourOf_def getProp_present andThen_Inr)

lemma mapE_transformHour:
  "\<forall>x\<in>set xs. \<not> absent x \<Longrightarrow> mapE transformHour xs = Inr (map hourOf xs)"
  by (induction xs) (simp_all add: transformHour_present andThen_Inr)

lemma sliceMap_array:
  assumes "isArray v" and "\<forall>x\<in>set (take 25 (elements v)). \<not> absent x"
  shows "sliceMap transformHour v = Inr (map hourOf (take 25 (elements v)))"
  using assms by (cases v) (simp_all add: isArray_def elements_def sliceMap_def mapE_transformHour)

lemma alerts_titles:
  assumes "\<not> truthy al \<or> (isArray al \<and> (\<forall>x\<in>set (elements al). \<not> absent x))"
  shows "(if truthy al then mapArray (\<lambda>a. getProp a ''title'') al else Inr []) = Inr (alertTitles al)"
proof (cases "truthy al")
  case False
  then show ?thesis
    by (simp add: alertTitles_def)
next
  case True
  then have "isArray al" and "\<forall>x\<in>set (elements al). \<not> absent x"
    using assms by simp_all
  then show ?thesis
    using True
    by (cases al) (simp_all add: isArray_def elements_def mapArray_def alertTitles_def mapE_getProp)
qed

text \<open>
  C8 as stated fails in its second half: with the current-conditions block and the hourly
  series present, normalization still throws when an entry of the series is \<open>null\<close>, or
  when \<open>alerts\<close> is an object and not an array.
\<close>

theorem normalization_counterexample:
  "\<not> absent (memberOf payloadNullHour ''currently'')
   \<and> \<not> absent (memberOf payloadNullHour ''hourly'')
   \<and> memberOf (memberOf payloadNullHour ''hourly'') ''data'' = JArr [payloadHour, Null]
   \<and> transformDarkSkyForecast payloadNullHour = Inl TypeError
   \<and> \<not> absent (memberOf payloadAlertObject ''currently'')
   \<and> \<not> absent (memberOf payloadAlertObject ''hourly'')
   \<and> memberOf (memberOf payloadAlertObject ''hourly'') ''data'' = JArr [payloadHour]
   \<and> transformDarkSkyForecast payloadAlertObject = Inl TypeError"
  by code_simp

text \<open>
  C8, amended. When the current-conditions block, the hourly block or the hourly series of
  the payload is absent (\<open>undefined\<close> or \<open>null\<close>), normalization fails with a \<open>TypeError\<close>
  (the specification's NormalizationError), and \<open>getForecastForLatLng\<close> returns that error
  unchanged, without another attempt. When the two blocks are present, the hourly series is
  an array whose first 25 entries are not \<open>null\<close>, and \<open>alerts\<close> is falsy or an array without
  \<open>null\<close> entries, normalization returns the forecast of the mapping rules: alerts are the
  alert titles (none without alerts) and hourly the first 25 entries of the series.
\<close>

theorem normalization:
  "((absent (memberOf data ''currently'') \<or> absent (memberOf data ''hourly'')
       \<or> absent (memberOf (memberOf data ''hourly'') ''data''))
      \<longrightarrow> transformDarkSkyForecast data = Inl TypeError
          \<and> getForecastForLatLng (Inr data) = Inl TypeError)
   \<and> ((\<not> absent (memberOf data ''currently'') \<and> \<not> absent (memberOf data ''hourly'')
        \<and> isArray (memberOf (memberOf data ''hourly'') ''data'')
        \<and> (\<forall>x\<in>set (take 25 (elements (memberOf (memberOf data ''hourly'') ''data''))). \<not> absent x)
        \<and> (\<not> truthy (memberOf data ''alerts'')
             \<or> (isArray (memberOf data ''alerts'')
                 \<and> (\<forall>x\<in>set (elements (memberOf data ''alerts'')). \<not> absent x))))
      \<longrightarrow> transformDarkSkyForecast data = Inr (normalizedForecast data)
          \<and> getForecastForLatLng (Inr data) = Inr (normalizedForecast data))"
proof -
  have caller: "getForecastForLatLng (Inr data) = transformDarkSkyForecast data"
    by (simp add: getForecastForLatLng_def andThen_Inr)
  have fails: "transformDarkSkyForecast data = Inl TypeError"
    if a: "absent (memberOf data ''currently'') \<or> absent (memberOf data ''hourly'')
             \<or> absent (memberOf (memberOf data ''hourly'') ''data'')"
  proof (cases "transformDarkSkyForecast data")
    case (Inl e)
    then show ?thesis
      using onlyTypeError_transform [of data] by (simp add: onlyTypeError_def)
  next
    case (Inr fc)
    then show ?thesis
      using transform_success_present [OF Inr] a isArray_present by blast
  qed
  have succeeds: "transformDarkSkyForecast data = Inr (normalizedForecast data)"
    if c: "\<not> absent (memberOf data ''currently'')" and h: "\<not> absent (memberOf data ''hourly'')"
      and s: "isArray (memberOf (memberOf data ''hourly'') ''data'')"
      and e: "\<forall>x\<in>set (take 25 (elements (memberOf (memberOf data ''hourly'') ''data''))). \<not> absent x"
      and al: "\<not> truthy (memberOf data ''alerts'')
             \<or> (isArray (memberOf data ''alerts'')
                 \<and> (\<forall>x\<in>set (elements (memberOf data ''alerts'')). \<not> absent x))"
  proof -
    have d: "\<not> absent data"
      using c memberOf_absent [of data "''currently''"] absent_Undefined by auto
    show ?thesis
      unfolding transformDarkSkyForecast_def normalizedForecast_def
      by (simp only: getProp_present [OF d] getProp_present [OF c] getProp_present [OF h]
            andThen_Inr alerts_titles [OF al] sliceMap_array [OF s e])
  qed
  show ?thesis
    using fails succeeds caller by (intro conjI impI) simp_all
qed

lemma payload_shape:
  "\<not> absent (memberOf payload ''currently'') \<and> \<not> absent (memberOf payload ''hourly'')
   \<and> isArray (memberOf (memberOf payload ''hourly'') ''data'')
   \<and> (\<forall>x\<in>set (take 25 (elements (memberOf (memberOf payload ''hourly'') ''data''))). \<not> absent x)
   \<and> (\<not> truthy (memberOf payload ''alerts'')
        \<or> (isArray (memberOf payload ''alerts'')
            \<and> (\<forall>x\<in>set (elements (memberOf payload ''alerts'')). \<not> absent x)))
   \<and> absent (memberOf payloadNoCurrently ''currently'')"
  by code_simp

lemma payload_normalized:
  "alerts (normalizedForecast payload) = [JStr ''Flood Watch'', JStr ''Wind Advisory'']
   \<and> length (hourly (normalizedForecast payload)) = 25
   \<and> current_summary (normalizedForecast payload) = JStr ''Overcast''
   \<and> hd (hourly (normalizedForecast payload)) =
       \<lparr> HourlyForecast.temperature = JNum (4737 / 100),
         HourlyForecast.feels_like = JNum (4428 / 100),
         HourlyForecast.precipitation_probability = JNum (3 / 100) \<rparr>"
  by code_simp

theorem normalization_witness:
  "absent (memberOf payloadNoCurrently ''currently'')
   \<and> transformDarkSkyForecast payloadNoCurrently = Inl TypeError
   \<and> getForecastForLatLng (Inr payloadNoCurrently) = Inl TypeError
   \<and> transformDarkSkyForecast payload = Inr (normalizedForecast payload)
   \<and> getForecastForLatLng (Inr payload) = Inr (normalizedForecast payload)
   \<and> alerts (normalizedForecast payload) = [JStr ''Flood Watch'', JStr ''Wind Advisory'']
   \<and> length (hourly (normalizedForecast payload)) = 25"
  using normalization [of payloadNoCurrently] normalization [of payload]
    payload_shape payload_normalized
  by blast

end
